theory Spec2Isabelle
  imports Complex_Main "HOL-Library.Word"
begin

unbundle bit_operations_syntax

section \<open>Beurer TL100 driver: packet codec\<close>

text \<open>
  The driver is the Python class \<^verbatim>\<open>BeurerInstance\<close> of \<^verbatim>\<open>beurer.py\<close>.
  Python integers are unbounded, so they are \<^typ>\<open>int\<close>; the elements of a
  \<^verbatim>\<open>bytearray\<close> are \<^typ>\<open>8 word\<close>. Every exception the source can raise by
  itself is a value of \<open>error\<close>.
\<close>

datatype error = IndexError | ValueError

text \<open>
  \<^verbatim>\<open>_make_checksum(length, data)\<close>: the loop \<^verbatim>\<open>for byte in data: result ^= byte\<close>,
  started at \<^verbatim>\<open>result = length\<close>.
\<close>

fun make_checksum :: "int \<Rightarrow> int list \<Rightarrow> int" where
  "make_checksum result [] = result"
| "make_checksum result (byte # data) = make_checksum (result XOR byte) data"

text \<open>
  Python's \<^verbatim>\<open>bytes(list)\<close>: every element has to be in \<^verbatim>\<open>range(256)\<close>, otherwise
  the constructor raises \<^verbatim>\<open>ValueError\<close>. The result keeps the values as they are.
\<close>

definition is_byte :: "int \<Rightarrow> bool" where
  "is_byte b = (0 \<le> b \<and> b < 256)"

definition bytes_of :: "int list \<Rightarrow> error + int list" where
  "bytes_of xs = (if list_all is_byte xs then Inr xs else Inl ValueError)"

text \<open>\<^verbatim>\<open>_build_packet(message)\<close>, lines 143 to 148.\<close>

definition build_packet :: "int list \<Rightarrow> error + int list" where
  "build_packet message =
     (let length = int (length message);
          checksum = make_checksum (length + 2) message;
          packet = [0xFE, 0xEF, 0x0A, length + 7, 0xAB, 0xAA, length + 2] @ message
                     @ [checksum, 0x55, 0x0D, 0x0A]
      in bytes_of packet)"

section \<open>Driver state\<close>

text \<open>
  The fields of \<^verbatim>\<open>BeurerInstance\<close> (lines 28 to 52), without their leading underscore.
  \<open>client\<close> and \<open>device\<close> only record whether the Python field holds an object or
  \<^verbatim>\<open>None\<close>; \<open>trigger_update\<close> records whether a callback is registered. The
  catalog \<^verbatim>\<open>_supported_effects\<close> is assigned once in \<^verbatim>\<open>__init__\<close> and never
  changed, so it is a constant.

  Four fields belong to the model, not to the class. \<open>events\<close> lists the invocations of
  the update callback: \<open>UpdateCalled\<close> for a direct call \<^verbatim>\<open>self._trigger_update()\<close>,
  \<open>UpdateScheduled\<close> for \<^verbatim>\<open>self._hass.loop.call_soon_threadsafe(self._trigger_update)\<close>.
  \<open>sent\<close> lists the payloads handed to \<^verbatim>\<open>_send_packet\<close>, \<open>wire\<close> the frames that
  \<^verbatim>\<open>write_gatt_char\<close> accepted. \<open>link\<close> is what the Bluetooth stack, which is not
  part of the repository, is going to answer: one \<open>reply\<close> for each call of
  \<^verbatim>\<open>_write\<close> or \<^verbatim>\<open>disconnect\<close>. Theorems about commands hold for every \<open>link\<close>.
\<close>

datatype color_mode = WHITE | RGB

datatype handle = Handle

datatype event = UpdateCalled | UpdateScheduled

text \<open>
  One answer of the transport:
  \<^item> \<open>alive\<close>: \<^verbatim>\<open>self._client.is_connected\<close> of an existing client;
  \<^item> \<open>found\<close>: \<^verbatim>\<open>async_ble_device_from_address\<close> returns a device;
  \<^item> \<open>established\<close>: \<^verbatim>\<open>establish_connection\<close> returns a client (it raises otherwise);
  \<^item> \<open>chars\<close>: the uuids of \<^verbatim>\<open>services.characteristics.values()\<close>;
  \<^item> \<open>notify_ok\<close>: \<^verbatim>\<open>start_notify\<close> returns (it raises otherwise);
  \<^item> \<open>disc_cb\<close>: \<^verbatim>\<open>client.disconnect()\<close> runs the disconnected callback;
  \<^item> \<open>write_ok\<close>: \<^verbatim>\<open>write_gatt_char\<close> returns (it raises \<^verbatim>\<open>BleakError\<close> otherwise).
\<close>

record reply =
  alive :: bool
  found :: bool
  established :: bool
  chars :: "string list"
  notify_ok :: bool
  disc_cb :: bool
  write_ok :: bool

record beurer =
  client :: "handle option"
  device :: "handle option"
  trigger_update :: bool
  is_on :: bool
  light_on :: bool
  color_on :: bool
  rgb_color :: "int \<times> int \<times> int"
  brightness :: int
  color_brightness :: int
  effect :: "string option"
  write_uuid :: "string option"
  read_uuid :: "string option"
  mode :: color_mode
  expected_disconnect :: bool
  events :: "event list"
  sent :: "int list list"
  wire :: "int list list"
  link :: "reply list"

definition supported_effects :: "string list" where
  "supported_effects =
     [''Off'', ''Random'', ''Rainbow'', ''Rainbow Slow'', ''Fusion'',
      ''Pulse'', ''Wave'', ''Chill'', ''Action'', ''Forest'', ''Summer'']"

definition WRITE_CHARACTERISTIC_UUIDS :: "string list" where
  "WRITE_CHARACTERISTIC_UUIDS = [''8b00ace7-eb0b-49b0-bbe9-9aee0a26e1a3'']"

definition READ_CHARACTERISTIC_UUIDS :: "string list" where
  "READ_CHARACTERISTIC_UUIDS = [''0734594a-a8e7-4b1a-a6b1-cd5243059a57'']"

text \<open>\<^verbatim>\<open>__init__\<close>; the argument is the future behaviour of the transport.\<close>

definition init :: "reply list \<Rightarrow> beurer" where
  "init answers =
     \<lparr>client = None, device = None, trigger_update = False,
      is_on = False, light_on = False, color_on = False,
      rgb_color = (255, 255, 255), brightness = 255, color_brightness = 255,
      effect = Some ''Off'', write_uuid = None, read_uuid = None, mode = WHITE,
      expected_disconnect = False, events = [], sent = [], wire = [], link = answers\<rparr>"

text \<open>\<^verbatim>\<open>set_update_callback\<close>, lines 71 to 74.\<close>

definition set_update_callback :: "beurer \<Rightarrow> beurer" where
  "set_update_callback s = s\<lparr>trigger_update := True\<rparr>"

text \<open>\<^verbatim>\<open>_disconnected_callback\<close>, lines 54 to 69.\<close>

definition disconnected_callback :: "beurer \<Rightarrow> beurer" where
  "disconnected_callback s =
     (let s1 =
        (if write_uuid s \<noteq> None then
           (let s2 = s\<lparr>write_uuid := None, read_uuid := None\<rparr> in
            if \<not> expected_disconnect s2 then
              (let s3 = s2\<lparr>is_on := False, light_on := False, color_on := False\<rparr> in
               if trigger_update s3 then s3\<lparr>events := events s3 @ [UpdateScheduled]\<rparr> else s3)
            else s2)
         else s)
      in s1\<lparr>client := None\<rparr>)"

text \<open>
  The properties \<^verbatim>\<open>color_brightness\<close> (\<^verbatim>\<open>self._color_brightness or 255\<close>) and
  \<^verbatim>\<open>white_brightness\<close> (\<^verbatim>\<open>self._brightness or 255\<close>), lines 96 to 104. Python's
  \<^verbatim>\<open>x or y\<close> is \<^verbatim>\<open>x\<close> when \<^verbatim>\<open>x\<close> is truthy, and an integer is truthy unless it is 0.
\<close>

definition color_brightness_property :: "beurer \<Rightarrow> int" where
  "color_brightness_property s = (if color_brightness s \<noteq> 0 then color_brightness s else 255)"

definition white_brightness_property :: "beurer \<Rightarrow> int" where
  "white_brightness_property s = (if brightness s \<noteq> 0 then brightness s else 255)"

text \<open>
  \<^verbatim>\<open>list.index(x)\<close>: the position of the first element equal to \<^verbatim>\<open>x\<close>;
  \<open>None\<close> stands for the \<^verbatim>\<open>ValueError\<close> it raises when there is none.
\<close>

fun index_of :: "'a list \<Rightarrow> 'a \<Rightarrow> nat option" where
  "index_of [] x = None"
| "index_of (y # ys) x =
     (if y = x then Some 0 else (case index_of ys x of None \<Rightarrow> None | Some i \<Rightarrow> Some (Suc i)))"

text \<open>\<^verbatim>\<open>_find_effect_position\<close>, lines 126 to 133.\<close>

definition find_effect_position :: "string option \<Rightarrow> int" where
  "find_effect_position eff =
     (case eff of
        None \<Rightarrow> 0
      | Some name \<Rightarrow> (case index_of supported_effects name of Some i \<Rightarrow> int i | None \<Rightarrow> 0))"

section \<open>Connection manager\<close>

text \<open>Truthiness of a \<^verbatim>\<open>str | None\<close>: neither \<^verbatim>\<open>None\<close> nor the empty string.\<close>

definition truthy :: "string option \<Rightarrow> bool" where
  "truthy u = (case u of None \<Rightarrow> False | Some v \<Rightarrow> v \<noteq> [])"

text \<open>The loop over the characteristics, lines 182 to 186.\<close>

fun find_characteristics :: "string list \<Rightarrow> beurer \<Rightarrow> beurer" where
  "find_characteristics [] s = s"
| "find_characteristics (uuid # rest) s =
     (let s1 = (if uuid \<in> set WRITE_CHARACTERISTIC_UUIDS then s\<lparr>write_uuid := Some uuid\<rparr> else s);
          s2 = (if uuid \<in> set READ_CHARACTERISTIC_UUIDS then s1\<lparr>read_uuid := Some uuid\<rparr> else s1)
      in find_characteristics rest s2)"

text \<open>
  \<^verbatim>\<open>_ensure_connected\<close>, lines 150 to 209, against one answer of the transport. The
  model is sequential, so the connect lock and the second look at the client under it
  change nothing. Both \<^verbatim>\<open>except\<close> branches set the client to \<^verbatim>\<open>None\<close> and return
  \<^verbatim>\<open>False\<close>.
\<close>

definition ensure_connected :: "reply \<Rightarrow> beurer \<Rightarrow> bool \<times> beurer" where
  "ensure_connected r s =
     (if client s \<noteq> None \<and> alive r then (True, s)
      else if \<not> found r then (False, s\<lparr>device := None\<rparr>)
      else
        (let s1 = s\<lparr>device := Some Handle\<rparr> in
         if \<not> established r then (False, s1\<lparr>client := None\<rparr>)
         else
           (let s2 = find_characteristics (chars r) (s1\<lparr>client := Some Handle\<rparr>) in
            if \<not> (truthy (read_uuid s2) \<and> truthy (write_uuid s2)) then
              (False, (if disc_cb r then disconnected_callback s2 else s2)\<lparr>client := None\<rparr>)
            else if \<not> notify_ok r then (False, s2\<lparr>client := None\<rparr>)
            else (True, s2))))"

text \<open>The next answer of the transport; a transport that has no more answers finds no device.\<close>

definition silent :: reply where
  "silent = \<lparr>alive = False, found = False, established = False, chars = [],
             notify_ok = False, disc_cb = False, write_ok = False\<rparr>"

definition next_reply :: "beurer \<Rightarrow> reply" where
  "next_reply s = (case link s of [] \<Rightarrow> silent | r # _ \<Rightarrow> r)"

text \<open>\<^verbatim>\<open>_write\<close>, lines 211 to 223 (\<open>write\<close> is a reserved word here).\<close>

definition write_bytes :: "int list \<Rightarrow> beurer \<Rightarrow> bool \<times> beurer" where
  "write_bytes data s =
     (let r = next_reply s in
      case ensure_connected r (s\<lparr>link := tl (link s)\<rparr>) of
        (ok, s1) \<Rightarrow>
          if \<not> ok then (False, s1)
          else if write_ok r then (True, s1\<lparr>wire := wire s1 @ [data]\<rparr>)
          else (False, s1))"

text \<open>\<^verbatim>\<open>disconnect\<close>, lines 378 to 390.\<close>

definition disconnect :: "beurer \<Rightarrow> beurer" where
  "disconnect s =
     (let r = next_reply s;
          s1 = s\<lparr>link := tl (link s), expected_disconnect := True\<rparr>;
          s2 = (if client s1 \<noteq> None \<and> alive r
                then (if disc_cb r then disconnected_callback s1 else s1)
                else s1)
      in s2\<lparr>client := None, expected_disconnect := False\<rparr>)"

section \<open>Command sequencer\<close>

text \<open>
  A command either returns the new state or raises; the state at the moment of the
  exception is kept beside the error, since the fields assigned before it stay assigned.
  \<^verbatim>\<open>asyncio.sleep\<close> changes nothing in the state and is left out.
\<close>

type_synonym 'a result = "(error \<times> beurer) + 'a"

text \<open>\<^verbatim>\<open>_send_packet\<close>, lines 225 to 228.\<close>

definition send_packet :: "int list \<Rightarrow> beurer \<Rightarrow> (bool \<times> beurer) result" where
  "send_packet message s =
     (let s0 = s\<lparr>sent := sent s @ [message]\<rparr> in
      case build_packet message of
        Inl e \<Rightarrow> Inl (e, s0)
      | Inr packet \<Rightarrow> Inr (write_bytes packet s0))"

text \<open>Every caller writes \<^verbatim>\<open>await self._send_packet(...)\<close> as a statement and drops the flag.\<close>

definition send :: "int list \<Rightarrow> beurer \<Rightarrow> beurer result" where
  "send message s = (case send_packet message s of Inl e \<Rightarrow> Inl e | Inr (ok, s1) \<Rightarrow> Inr s1)"

text \<open>Statements in sequence: the first exception ends the run.\<close>

fun steps :: "(beurer \<Rightarrow> beurer result) list \<Rightarrow> beurer \<Rightarrow> beurer result" where
  "steps [] s = Inr s"
| "steps (f # fs) s = (case f s of Inl e \<Rightarrow> Inl e | Inr s1 \<Rightarrow> steps fs s1)"

text \<open>
  \<^verbatim>\<open>int(brightness / 255 * 100)\<close> on the command side (lines 309, 321 and 356).
  \<^verbatim>\<open>int\<close> truncates towards zero. The quotient is computed in floating point; for
  \<open>0 \<le> brightness \<le> 700\<close> the result is the truncated exact quotient (the exact value
  is an integer only at multiples of 51, where the floating-point product is that integer,
  and is otherwise at least \<open>1/51\<close> away from one). The theorems use this range only.
\<close>

definition level_to_percent :: "int \<Rightarrow> int" where
  "level_to_percent b = (if 0 \<le> b then b * 100 div 255 else - ((- b) * 100 div 255))"

text \<open>
  \<^verbatim>\<open>int(data[10] * 255 / 100) if data[10] > 0 else 255\<close> on the notification side (lines
  244 and 255), for a byte \<open>0 \<le> p \<le> 255\<close>. The product is an exact integer and the
  division is correctly rounded; a quotient that is not an integer is at least \<open>1/100\<close>
  away from one, so truncating the floating-point quotient gives \<open>p * 255 div 100\<close>.
\<close>

definition percent_to_level :: "int \<Rightarrow> int" where
  "percent_to_level p = (if p > 0 then p * 255 div 100 else 255)"

text \<open>\<^verbatim>\<open>_trigger_status\<close>, lines 281 to 285.\<close>

definition trigger_status :: "beurer \<Rightarrow> beurer result" where
  "trigger_status s = steps [send [0x30, 0x01], send [0x30, 0x02]] s"

text \<open>\<^verbatim>\<open>turn_on\<close>, lines 337 to 359. \<^verbatim>\<open>if self._effect\<close> is the truthiness of a string.\<close>

definition turn_on :: "beurer \<Rightarrow> beurer result" where
  "turn_on s =
     (if mode s = WHITE then steps [send [0x37, 0x01], trigger_status] s
      else
        steps
          [send [0x37, 0x02],
           (\<lambda>t. if \<not> color_on t then
                  steps
                    [(\<lambda>u. if truthy (effect u)
                           then send [0x34, find_effect_position (effect u)] u else Inr u),
                     (\<lambda>u. case rgb_color u of (r, g, b) \<Rightarrow> send [0x32, r, g, b] u),
                     (\<lambda>u. if color_brightness u \<noteq> 0
                           then send [0x31, 0x02, level_to_percent (color_brightness u)] u
                           else Inr u)]
                    (t\<lparr>color_on := True\<rparr>)
                else Inr t),
           trigger_status] s)"

text \<open>\<^verbatim>\<open>turn_off\<close>, lines 361 to 367.\<close>

definition turn_off :: "beurer \<Rightarrow> beurer result" where
  "turn_off s = steps [send [0x35, 0x01], send [0x35, 0x02], trigger_status] s"

text \<open>\<^verbatim>\<open>set_color\<close>, lines 287 to 299.\<close>

definition set_color :: "int \<times> int \<times> int \<Rightarrow> beurer \<Rightarrow> beurer result" where
  "set_color rgb s =
     (case rgb of (r, g, b) \<Rightarrow>
        steps [(\<lambda>t. if \<not> color_on t then turn_on t else Inr t),
               send [0x32, r, g, b],
               trigger_status]
              (s\<lparr>mode := RGB, rgb_color := rgb\<rparr>))"

text \<open>\<^verbatim>\<open>set_color_brightness\<close>, lines 301 to 311, and \<^verbatim>\<open>set_white\<close>, lines 313 to 323.\<close>

definition set_color_brightness :: "int \<Rightarrow> beurer \<Rightarrow> beurer result" where
  "set_color_brightness b s =
     steps [(\<lambda>t. if \<not> color_on t then turn_on t else Inr t),
            send [0x31, 0x02, level_to_percent b],
            trigger_status]
           (s\<lparr>mode := RGB\<rparr>)"

definition set_white :: "int \<Rightarrow> beurer \<Rightarrow> beurer result" where
  "set_white intensity s =
     steps [(\<lambda>t. if \<not> light_on t then turn_on t else Inr t),
            send [0x31, 0x01, level_to_percent intensity],
            trigger_status]
           (s\<lparr>mode := WHITE\<rparr>)"

text \<open>\<^verbatim>\<open>set_effect\<close>, lines 325 to 335.\<close>

definition set_effect :: "string \<Rightarrow> beurer \<Rightarrow> beurer result" where
  "set_effect name s =
     steps [(\<lambda>t. if \<not> color_on t then turn_on t else Inr t),
            send [0x34, find_effect_position (Some name)],
            trigger_status]
           (s\<lparr>mode := RGB, effect := Some name\<rparr>)"

section \<open>Notification interpreter\<close>

text \<open>\<^verbatim>\<open>data[i]\<close> on a \<^verbatim>\<open>bytearray\<close>, for an index that is not negative.\<close>

definition get :: "'a list \<Rightarrow> nat \<Rightarrow> error + 'a" where
  "get xs i = (if i < length xs then Inr (xs ! i) else Inl IndexError)"

text \<open>
  \<^verbatim>\<open>_notification_handler\<close>, lines 230 to 279. The reads of bytes 8 and 13 to 16 are
  behind a test of the length; those of bytes 9 and 10 are not.
\<close>

definition notification_handler :: "8 word list \<Rightarrow> beurer \<Rightarrow> beurer result" where
  "notification_handler data s =
     (if length data < 9 then Inr s
      else
        (let reply_version = data ! 8 in
         if reply_version = 1 then
           (case get data 9 of
              Inl e \<Rightarrow> Inl (e, s)
            | Inr b9 \<Rightarrow>
                (let s1 = s\<lparr>light_on := (b9 = 1)\<rparr> in
                 if light_on s1 then
                   (case get data 10 of
                      Inl e \<Rightarrow> Inl (e, s1)
                    | Inr b10 \<Rightarrow>
                        Inr (s1\<lparr>brightness := percent_to_level (uint b10), mode := WHITE\<rparr>))
                 else Inr s1))
         else if reply_version = 2 then
           (case get data 9 of
              Inl e \<Rightarrow> Inl (e, s)
            | Inr b9 \<Rightarrow>
                (let s1 = s\<lparr>color_on := (b9 = 1)\<rparr>;
                     s2 = (if color_on s1 then
                             (let s3 = s1\<lparr>mode := RGB\<rparr> in
                              if length data > 16 then
                                s3\<lparr>effect := Some (supported_effects !
                                     nat (min (uint (data ! 16))
                                              (int (length supported_effects) - 1)))\<rparr>
                              else s3)
                           else s1)
                 in case get data 10 of
                      Inl e \<Rightarrow> Inl (e, s2)
                    | Inr b10 \<Rightarrow>
                        (let s4 = s2\<lparr>color_brightness := percent_to_level (uint b10)\<rparr>;
                             s5 = (if length data \<ge> 16 then
                                     s4\<lparr>rgb_color := (uint (data ! 13), uint (data ! 14),
                                                       uint (data ! 15))\<rparr>
                                   else s4);
                             s6 = s5\<lparr>is_on := (light_on s5 \<or> color_on s5)\<rparr>
                         in Inr (if trigger_update s6
                                 then s6\<lparr>events := events s6 @ [UpdateCalled]\<rparr> else s6))))
         else if reply_version = 255 then
           (let s1 = s\<lparr>is_on := False, light_on := False, color_on := False\<rparr>
            in Inr (if trigger_update s1 then s1\<lparr>events := events s1 @ [UpdateCalled]\<rparr> else s1))
         else if reply_version = 0 then Inr (disconnect (s\<lparr>expected_disconnect := True\<rparr>))
         else Inr s))"

section \<open>Auxiliary definitions for the statements\<close>

text \<open>
  The percent-to-level mapping in the words of the specification,
  \<^verbatim>\<open>round(percent * 255 / 100)\<close>, to compare with \<open>percent_to_level\<close>.
\<close>

definition spec_percent_to_level :: "int \<Rightarrow> int" where
  "spec_percent_to_level percent = round (of_int percent * 255 / 100 :: rat)"

text \<open>A transport on which every call succeeds and both characteristics are present.\<close>

definition accepting :: reply where
  "accepting = \<lparr>alive = True, found = True, established = True,
                chars = WRITE_CHARACTERISTIC_UUIDS @ READ_CHARACTERISTIC_UUIDS,
                notify_ok = True, disc_cb = True, write_ok = True\<rparr>"

text \<open>A connected driver with the white light on and an update callback registered.\<close>

definition lit :: beurer where
  "lit = (init [])\<lparr>client := Some Handle, trigger_update := True,
                   is_on := True, light_on := True,
                   write_uuid := Some ''8b00ace7-eb0b-49b0-bbe9-9aee0a26e1a3'',
                   read_uuid := Some ''0734594a-a8e7-4b1a-a6b1-cd5243059a57''\<rparr>"

text \<open>
  The cached colour and colour brightness are values a frame can be built from: the
  colour components are bytes, and the brightness is in the range the notification
  handler can store (\<open>percent_to_level 255 = 650\<close>).
\<close>

definition store_ok :: "beurer \<Rightarrow> bool" where
  "store_ok s =
     ((case rgb_color s of (r, g, b) \<Rightarrow> is_byte r \<and> is_byte g \<and> is_byte b)
      \<and> 0 \<le> color_brightness s \<and> color_brightness s \<le> 650)"

text \<open>
  What a write to the link can do to the cached device state: it can clear \<open>is_on\<close> and
  \<open>light_on\<close> (through the disconnected callback), never set them, and it leaves the
  colour, the brightnesses, the effect, the mode and the callback alone.
\<close>

definition store_decays :: "beurer \<Rightarrow> beurer \<Rightarrow> bool" where
  "store_decays s s' =
     ((is_on s \<or> \<not> is_on s') \<and> (light_on s \<or> \<not> light_on s')
      \<and> rgb_color s' = rgb_color s \<and> brightness s' = brightness s
      \<and> color_brightness s' = color_brightness s \<and> effect s' = effect s
      \<and> mode s' = mode s \<and> trigger_update s' = trigger_update s)"

text \<open>
  Two conditions on an answer of the transport. A \<open>steady\<close> answer never leads to the
  disconnected callback during a write: the callback can only run when
  \<^verbatim>\<open>_ensure_connected\<close> tears a fresh link down for a missing characteristic. A
  \<open>working\<close> answer lets the write through: the device is found, the connection is made,
  both characteristics are there, the subscription and the write succeed.
\<close>

definition has_both :: "string list \<Rightarrow> bool" where
  "has_both cs =
     (list_ex (\<lambda>u. u \<in> set WRITE_CHARACTERISTIC_UUIDS) cs
      \<and> list_ex (\<lambda>u. u \<in> set READ_CHARACTERISTIC_UUIDS) cs)"

definition steady :: "reply \<Rightarrow> bool" where
  "steady r = (if disc_cb r then has_both (chars r) else True)"

definition steady_link :: "beurer \<Rightarrow> bool" where
  "steady_link s = list_all steady (link s)"

definition working :: "reply \<Rightarrow> bool" where
  "working r = (found r \<and> established r \<and> has_both (chars r) \<and> notify_ok r \<and> write_ok r)"

text \<open>The cached device state is the same in both states.\<close>

definition store_same :: "beurer \<Rightarrow> beurer \<Rightarrow> bool" where
  "store_same s s' =
     (is_on s' = is_on s \<and> light_on s' = light_on s \<and> color_on s' = color_on s
      \<and> rgb_color s' = rgb_color s \<and> brightness s' = brightness s
      \<and> color_brightness s' = color_brightness s \<and> effect s' = effect s
      \<and> mode s' = mode s \<and> trigger_update s' = trigger_update s)"

text \<open>
  The frame of a payload, and the run from \<open>s\<close> to \<open>s'\<close> in which the payloads \<open>ps\<close>
  were handed to \<^verbatim>\<open>_send_packet\<close> and the frame of each was written to the link, one
  answer of the transport used for each. \<open>ready k s\<close>: the cached values fit a frame and
  the next \<open>k\<close> answers, at least, are there and working.
\<close>

definition frame_of :: "int list \<Rightarrow> int list" where
  "frame_of m = (case build_packet m of Inr p \<Rightarrow> p | Inl e \<Rightarrow> [])"

definition delivered :: "beurer \<Rightarrow> beurer \<Rightarrow> int list list \<Rightarrow> bool" where
  "delivered s s' ps =
     (sent s' = sent s @ ps
      \<and> wire s' = wire s @ map frame_of ps
      \<and> link s' = drop (length ps) (link s)
      \<and> store_decays s s')"

definition ready :: "nat \<Rightarrow> beurer \<Rightarrow> bool" where
  "ready k s = (store_ok s \<and> list_all working (link s) \<and> k \<le> length (link s))"

section \<open>Properties of the packet codec\<close>

lemma make_checksum_foldl: "make_checksum c xs = foldl (XOR) c xs"
  by (induction xs arbitrary: c) simp_all

lemma make_checksum_is_byte:
  "is_byte c \<Longrightarrow> list_all is_byte xs \<Longrightarrow> is_byte (make_checksum c xs)"
proof (induction xs arbitrary: c)
  case Nil
  then show ?case by simp
next
  case (Cons x xs)
  from Cons.prems have cx: "is_byte c" "is_byte x" and rest: "list_all is_byte xs"
    by simp_all
  from cx have c: "0 \<le> c" "c < 2 ^ 8" and x: "0 \<le> x" "x < 2 ^ 8"
    by (simp_all add: is_byte_def)
  have "c XOR x < 2 ^ 8" using c x by (intro XOR_upper)
  moreover have "0 \<le> c XOR x" using c x by simp
  ultimately have "is_byte (c XOR x)" by (simp add: is_byte_def)
  with Cons.IH rest show ?case by simp
qed

lemma build_packet_bytes:
  assumes "list_all is_byte P" and "length P \<le> 248"
  shows "build_packet P =
           Inr ([0xFE, 0xEF, 0x0A, int (length P) + 7, 0xAB, 0xAA, int (length P) + 2] @ P
                @ [make_checksum (int (length P) + 2) P, 0x55, 0x0D, 0x0A])"
proof -
  have len: "is_byte (int (length P) + 2)" "is_byte (int (length P) + 7)"
    using assms(2) by (simp_all add: is_byte_def)
  have "is_byte (make_checksum (int (length P) + 2) P)"
    using len(1) assms(1) by (rule make_checksum_is_byte)
  then show ?thesis
    using len assms(1) by (simp add: build_packet_def bytes_of_def Let_def is_byte_def)
qed

text \<open>
  Every payload the command sequencer builds from byte arguments is in the domain of
  the next theorem: byte values, two to four of them.
\<close>

lemma command_payloads_in_domain:
  assumes "is_byte m" and "is_byte p" and "is_byte r" and "is_byte g" and "is_byte b"
    and "is_byte i"
  shows "list_all (\<lambda>P. list_all is_byte P \<and> length P \<le> 248)
           [[0x30, m], [0x31, m, p], [0x32, r, g, b], [0x34, i], [0x35, m], [0x37, m]]"
  using assms by (simp add: is_byte_def)

text \<open>
  C1. For every command payload \<open>P\<close> of length \<open>L\<close>, that is a list of byte values
  whose total-length byte \<open>L + 7\<close> is a byte too (\<open>L \<le> 248\<close>; the payloads of the
  command set have two to four bytes), \<open>build_packet P\<close> returns exactly the frame
  \<open>[0xFE, 0xEF, 0x0A, L+7, 0xAB, 0xAA, L+2] @ P @ [c, 0x55, 0x0D, 0x0A]\<close> with
  \<open>c = (L+2) XOR P[0] XOR \<dots> XOR P[L-1]\<close>; it returns a value and no error, and
  \<open>build_packet []\<close> is the 11-byte frame whose checksum is 2. (\<open>build_packet\<close> is a
  function of its argument alone, so it is deterministic and has no side effect.)
\<close>

theorem build_packet_frame:
  assumes "list_all is_byte P" and "length P \<le> 248"
  shows "build_packet P =
           Inr ([0xFE, 0xEF, 0x0A, int (length P) + 7, 0xAB, 0xAA, int (length P) + 2] @ P
                @ [foldl (XOR) (int (length P) + 2) P, 0x55, 0x0D, 0x0A])
         \<and> build_packet [] = Inr [0xFE, 0xEF, 0x0A, 7, 0xAB, 0xAA, 2, 2, 0x55, 0x0D, 0x0A]"
proof -
  have "build_packet [] = Inr [0xFE, 0xEF, 0x0A, 7, 0xAB, 0xAA, 2, 2, 0x55, 0x0D, 0x0A]"
    by (simp add: build_packet_def bytes_of_def is_byte_def)
  with build_packet_bytes [OF assms] show ?thesis by (simp add: make_checksum_foldl)
qed

text \<open>C1, witness: the effect command \<open>[0x34, 3]\<close>.\<close>

theorem build_packet_frame_witness:
  "list_all is_byte [0x34, 3] \<and> length [0x34 :: int, 3] \<le> 248
   \<and> build_packet [0x34, 3] =
       Inr [0xFE, 0xEF, 0x0A, 9, 0xAB, 0xAA, 4, 0x34, 3, 0x33, 0x55, 0x0D, 0x0A]"
proof -
  have h1: "list_all is_byte [0x34, 3]" by (simp add: is_byte_def)
  have h2: "length [0x34 :: int, 3] \<le> 248" by simp
  show ?thesis using h1 h2 build_packet_frame [OF h1 h2] by simp
qed

text \<open>
  Outside that domain \<^verbatim>\<open>bytes(...)\<close> refuses the frame: with 249 payload bytes the
  total-length byte would be 256. No command has such a payload.
\<close>

lemma build_packet_too_long: "build_packet (replicate 249 0) = Inl ValueError"
  by (simp add: build_packet_def bytes_of_def is_byte_def)

section \<open>Properties of the brightness accessors\<close>

text \<open>
  C10. The accessors \<open>white_brightness\<close> and \<open>color_brightness\<close> never return 0: when
  the cached field is 0 they return 255, and a cached value that is not 0 is returned
  unchanged.
\<close>

theorem brightness_property_never_zero:
  "white_brightness_property s \<noteq> 0 \<and> color_brightness_property s \<noteq> 0
   \<and> (brightness s = 0 \<longrightarrow> white_brightness_property s = 255)
   \<and> (color_brightness s = 0 \<longrightarrow> color_brightness_property s = 255)
   \<and> (brightness s \<noteq> 0 \<longrightarrow> white_brightness_property s = brightness s)
   \<and> (color_brightness s \<noteq> 0 \<longrightarrow> color_brightness_property s = color_brightness s)"
  by (simp add: white_brightness_property_def color_brightness_property_def)

text \<open>C10, witness: a cached white brightness of 0 and a cached colour brightness of 77.\<close>

theorem brightness_property_never_zero_witness:
  "brightness ((init [])\<lparr>brightness := 0, color_brightness := 77\<rparr>) = 0
   \<and> white_brightness_property ((init [])\<lparr>brightness := 0, color_brightness := 77\<rparr>) = 255
   \<and> color_brightness ((init [])\<lparr>brightness := 0, color_brightness := 77\<rparr>) \<noteq> 0
   \<and> color_brightness_property ((init [])\<lparr>brightness := 0, color_brightness := 77\<rparr>) = 77"
  using brightness_property_never_zero [of "(init [])\<lparr>brightness := 0, color_brightness := 77\<rparr>"]
  by simp

section \<open>Properties of the notification interpreter\<close>

text \<open>
  C8. A frame shorter than 9 bytes, and a frame of at least 9 bytes whose reply tag
  (byte 8) is none of 0, 1, 2 and 255, leaves the whole state as it is: no field of the
  device state changes and \<open>events\<close> gains no entry, so no update callback fires.
\<close>

theorem notification_ignored:
  assumes "length data < 9 \<or> (9 \<le> length data \<and> data ! 8 \<notin> {0, 1, 2, 255})"
  shows "notification_handler data s = Inr s"
  using assms by (auto simp add: notification_handler_def Let_def)

text \<open>C8, witness: an 11-byte frame with the unknown tag 7, and a 3-byte frame.\<close>

theorem notification_ignored_witness:
  "(9 \<le> length [0, 0, 0, 0, 0, 0, 0, 0, 7, 1, 50 :: 8 word]
     \<and> [0, 0, 0, 0, 0, 0, 0, 0, 7, 1, 50 :: 8 word] ! 8 \<notin> {0, 1, 2, 255})
   \<and> length [1, 2, 3 :: 8 word] < 9
   \<and> notification_handler [0, 0, 0, 0, 0, 0, 0, 0, 7, 1, 50] (init []) = Inr (init [])
   \<and> notification_handler [1, 2, 3] (init []) = Inr (init [])"
proof -
  have h1: "length [1, 2, 3 :: 8 word] < 9 \<or> (9 \<le> length [1, 2, 3 :: 8 word] \<and> [1, 2, 3 :: 8 word] ! 8 \<notin> {0, 1, 2, 255})"
    by simp
  have h2: "9 \<le> length [0, 0, 0, 0, 0, 0, 0, 0, 7, 1, 50 :: 8 word]
     \<and> [0, 0, 0, 0, 0, 0, 0, 0, 7, 1, 50 :: 8 word] ! 8 \<notin> {0, 1, 2, 255}" by simp
  then have h3: "length [0, 0, 0, 0, 0, 0, 0, 0, 7, 1, 50 :: 8 word] < 9 \<or> (9 \<le> length [0, 0, 0, 0, 0, 0, 0, 0, 7, 1, 50 :: 8 word]
     \<and> [0, 0, 0, 0, 0, 0, 0, 0, 7, 1, 50 :: 8 word] ! 8 \<notin> {0, 1, 2, 255})" by (rule disjI2)
  show ?thesis
    using h2 notification_ignored [OF h1, of "init []"] notification_ignored [OF h3, of "init []"]
    by simp
qed

text \<open>
  C2, as amended. For every frame with reply tag 1 that holds the bytes the handler
  reads (at least 10 bytes, at least 11 when byte 9 is 1), the handler returns and sets
  \<open>light_on\<close> to \<open>byte 9 = 1\<close>; when byte 9 is 1 it sets the mode to \<open>WHITE\<close> and the
  white brightness to \<open>byte 10 * 255 div 100\<close>, the quotient truncated and not rounded,
  when byte 10 is greater than 0, and to 255 when byte 10 is 0. With byte 10 = 50 the
  brightness is within 1 of 128, with byte 10 = 0 it is 255.
\<close>

theorem white_status_frame:
  assumes "9 \<le> length data" and "data ! 8 = 1"
    and "(if data ! 9 = 1 then 11 else 10) \<le> length data"
  shows "\<exists>s'. notification_handler data s = Inr s'
           \<and> light_on s' = (data ! 9 = 1)
           \<and> (data ! 9 = 1 \<longrightarrow> mode s' = WHITE
                \<and> brightness s' = (if 0 < uint (data ! 10) then uint (data ! 10) * 255 div 100 else 255))
           \<and> (data ! 9 = 1 \<and> data ! 10 = 50 \<longrightarrow> \<bar>brightness s' - 128\<bar> \<le> 1)
           \<and> (data ! 9 = 1 \<and> data ! 10 = 0 \<longrightarrow> brightness s' = 255)"
  using assms
  by (auto simp add: notification_handler_def Let_def get_def percent_to_level_def split: if_splits)

text \<open>C2, witness: the frame with tag 1, byte 9 = 1 and byte 10 = 50 gives 127.\<close>

theorem white_status_frame_witness:
  "9 \<le> length [0, 0, 0, 0, 0, 0, 0, 0, 1, 1, 50 :: 8 word]
   \<and> [0, 0, 0, 0, 0, 0, 0, 0, 1, 1, 50 :: 8 word] ! 8 = 1
   \<and> (if [0, 0, 0, 0, 0, 0, 0, 0, 1, 1, 50 :: 8 word] ! 9 = 1 then 11 else 10)
        \<le> length [0, 0, 0, 0, 0, 0, 0, 0, 1, 1, 50 :: 8 word]
   \<and> (\<exists>s'. notification_handler [0, 0, 0, 0, 0, 0, 0, 0, 1, 1, 50] (init []) = Inr s'
         \<and> light_on s' \<and> mode s' = WHITE \<and> brightness s' = 127)"
proof -
  have h1: "9 \<le> length [0, 0, 0, 0, 0, 0, 0, 0, 1, 1, 50 :: 8 word]" by simp
  have h2: "[0, 0, 0, 0, 0, 0, 0, 0, 1, 1, 50 :: 8 word] ! 8 = 1" by simp
  have h3: "(if [0, 0, 0, 0, 0, 0, 0, 0, 1, 1, 50 :: 8 word] ! 9 = 1 then 11 else 10)
        \<le> length [0, 0, 0, 0, 0, 0, 0, 0, 1, 1, 50 :: 8 word]" by simp
  from white_status_frame [OF h1 h2 h3, of "init []"]
  have "\<exists>s'. notification_handler [0, 0, 0, 0, 0, 0, 0, 0, 1, 1, 50] (init []) = Inr s'
         \<and> light_on s' \<and> mode s' = WHITE \<and> brightness s' = 127"
    by auto
  with h1 h2 h3 show ?thesis by blast
qed

text \<open>
  C2 as stated fails twice. The brightness is truncated, not rounded: byte 10 = 1 gives
  2, where \<^verbatim>\<open>round(1 * 255 / 100)\<close> is 3. And a frame of exactly 9 bytes with tag 1 is
  not handled: reading byte 9 raises \<^verbatim>\<open>IndexError\<close>.
\<close>

lemma spec_percent_to_level_1: "spec_percent_to_level 1 = 3"
  unfolding spec_percent_to_level_def by (simp add: round_unique)

theorem white_status_counterexample:
  "notification_handler [0, 0, 0, 0, 0, 0, 0, 0, 1, 1, 1] (init [])
     = Inr ((init [])\<lparr>light_on := True, brightness := 2, mode := WHITE\<rparr>)
   \<and> spec_percent_to_level 1 = 3
   \<and> notification_handler [0, 0, 0, 0, 0, 0, 0, 0, 1] (init []) = Inl (IndexError, init [])"
  by (simp add: notification_handler_def Let_def get_def percent_to_level_def
      spec_percent_to_level_1)

text \<open>
  C3, at the failing input. A 9-byte frame with reply tag 2 is not handled as the claim
  says: reading byte 9 raises \<^verbatim>\<open>IndexError\<close> before any field is assigned. A 10-byte
  frame with byte 9 = 1 raises at byte 10, after \<open>color_on\<close> and the mode were assigned
  and before \<open>is_on\<close> is derived or the callback called.
\<close>

theorem color_status_short_frame_raises:
  "notification_handler [0, 0, 0, 0, 0, 0, 0, 0, 2] s = Inl (IndexError, s)
   \<and> notification_handler [0, 0, 0, 0, 0, 0, 0, 0, 2, 1] s
       = Inl (IndexError, s\<lparr>color_on := True, mode := RGB\<rparr>)"
  by (simp add: notification_handler_def Let_def get_def)

text \<open>
  On frames of at least 11 bytes the colour-status branch does what C3 describes; the
  brightness mapping is the truncating one of \<open>percent_to_level\<close>.
\<close>

lemma color_status_long_frame:
  assumes "11 \<le> length data" and "data ! 8 = 2"
  shows "\<exists>s'. notification_handler data s = Inr s'
           \<and> color_on s' = (data ! 9 = 1)
           \<and> (data ! 9 = 1 \<longrightarrow> mode s' = RGB)
           \<and> (data ! 9 = 1 \<and> 16 < length data \<longrightarrow>
                 effect s' = Some (supported_effects ! nat (min (uint (data ! 16)) 10))
                 \<and> nat (min (uint (data ! 16)) 10) < length supported_effects)
           \<and> color_brightness s' = percent_to_level (uint (data ! 10))
           \<and> (16 \<le> length data \<longrightarrow>
                 rgb_color s' = (uint (data ! 13), uint (data ! 14), uint (data ! 15)))
           \<and> is_on s' = (light_on s' \<or> color_on s')
           \<and> light_on s' = light_on s
           \<and> events s' = events s @ (if trigger_update s then [UpdateCalled] else [])"
  using assms
  by (auto simp add: notification_handler_def Let_def get_def supported_effects_def)

section \<open>Properties of the disconnected callback\<close>

text \<open>
  C4. When the disconnected callback runs with the write channel resolved, both channel
  identifiers and the client are cleared. If the disconnect was not flagged as expected,
  \<open>is_on\<close>, \<open>light_on\<close> and \<open>color_on\<close> become false and the registered update
  callback is scheduled on the host loop (\<open>UpdateScheduled\<close>), while colour,
  brightnesses, effect and mode stay as they are. If it was flagged as expected, nothing
  else changes and nothing is scheduled. If the write channel was never resolved, only
  the client is cleared.
\<close>

theorem disconnected_callback_effect:
  "(write_uuid s \<noteq> None \<and> \<not> expected_disconnect s \<longrightarrow>
      disconnected_callback s =
        s\<lparr>client := None, write_uuid := None, read_uuid := None,
          is_on := False, light_on := False, color_on := False,
          events := events s @ (if trigger_update s then [UpdateScheduled] else [])\<rparr>)
   \<and> (write_uuid s \<noteq> None \<and> expected_disconnect s \<longrightarrow>
      disconnected_callback s = s\<lparr>client := None, write_uuid := None, read_uuid := None\<rparr>)
   \<and> (write_uuid s = None \<longrightarrow> disconnected_callback s = s\<lparr>client := None\<rparr>)"
  by (simp add: disconnected_callback_def Let_def)

text \<open>
  C4, witness: the connected driver \<open>lit\<close>, first unflagged, then flagged as expected,
  and a fresh driver whose write channel was never resolved.
\<close>

theorem disconnected_callback_effect_witness:
  "(write_uuid lit \<noteq> None \<and> \<not> expected_disconnect lit)
   \<and> disconnected_callback lit =
        lit\<lparr>client := None, write_uuid := None, read_uuid := None,
            is_on := False, light_on := False, events := [UpdateScheduled]\<rparr>
   \<and> (write_uuid (lit\<lparr>expected_disconnect := True\<rparr>) \<noteq> None
        \<and> expected_disconnect (lit\<lparr>expected_disconnect := True\<rparr>))
   \<and> disconnected_callback (lit\<lparr>expected_disconnect := True\<rparr>) =
        lit\<lparr>expected_disconnect := True, client := None, write_uuid := None, read_uuid := None\<rparr>
   \<and> write_uuid ((init [])\<lparr>client := Some Handle\<rparr>) = None
   \<and> disconnected_callback ((init [])\<lparr>client := Some Handle\<rparr>) = init []"
proof -
  have h1: "write_uuid lit \<noteq> None \<and> \<not> expected_disconnect lit"
    by (simp add: lit_def init_def)
  have h2: "write_uuid (lit\<lparr>expected_disconnect := True\<rparr>) \<noteq> None
        \<and> expected_disconnect (lit\<lparr>expected_disconnect := True\<rparr>)"
    by (simp add: lit_def init_def)
  have h3: "write_uuid ((init [])\<lparr>client := Some Handle\<rparr>) = None"
    by (simp add: init_def)
  show ?thesis
    using h1 h2 h3 disconnected_callback_effect [of lit]
      disconnected_callback_effect [of "lit\<lparr>expected_disconnect := True\<rparr>"]
      disconnected_callback_effect [of "(init [])\<lparr>client := Some Handle\<rparr>"]
    by (simp add: lit_def init_def)
qed

text \<open>
  \<^verbatim>\<open>disconnect()\<close> sets the flag before it tears the link down, so whatever the
  transport does, the cached device state stays and no update is scheduled.
\<close>

lemma disconnect_keeps_store:
  "is_on (disconnect s) = is_on s \<and> light_on (disconnect s) = light_on s
   \<and> color_on (disconnect s) = color_on s \<and> events (disconnect s) = events s
   \<and> client (disconnect s) = None \<and> \<not> expected_disconnect (disconnect s)"
  by (simp add: disconnect_def disconnected_callback_def Let_def)

section \<open>Brightness conversions\<close>

text \<open>
  Over the whole range of levels: a level below 3 becomes percent 0 and comes back as the
  default 255; any other level comes back at most 3 lower and never higher.
\<close>

lemma round_trip_bounds:
  assumes "0 \<le> l" "l \<le> 255"
  shows "(l < 3 \<longrightarrow> percent_to_level (level_to_percent l) = 255)
       \<and> (3 \<le> l \<longrightarrow> l - 3 \<le> percent_to_level (level_to_percent l)
                    \<and> percent_to_level (level_to_percent l) \<le> l)"
  using assms unfolding percent_to_level_def level_to_percent_def by (simp; arith)

text \<open>
  C5, as amended. For the levels 0, 1, 128, 254 and 255, converting to a percent on the
  command side and back on the notification side gives: 255 for the levels 0 and 1
  (their percent is 0, which the notification side takes as unknown), a value within 1
  for 128 and 255, and 252, two below, for 254.
\<close>

theorem brightness_round_trip:
  assumes "l \<in> {0, 1, 128, 254, 255}"
  shows "(l = 0 \<or> l = 1 \<longrightarrow> percent_to_level (level_to_percent l) = 255)
         \<and> (l = 128 \<or> l = 255 \<longrightarrow> \<bar>percent_to_level (level_to_percent l) - l\<bar> \<le> 1)
         \<and> (l = 254 \<longrightarrow> percent_to_level (level_to_percent l) = 252)"
  using assms by (auto simp add: percent_to_level_def level_to_percent_def)

text \<open>C5, witness: level 128 comes back as 127, level 0 as 255, level 254 as 252.\<close>

theorem brightness_round_trip_witness:
  "(128 :: int) \<in> {0, 1, 128, 254, 255}
   \<and> \<bar>percent_to_level (level_to_percent 128) - 128\<bar> \<le> 1
   \<and> (0 :: int) \<in> {0, 1, 128, 254, 255}
   \<and> percent_to_level (level_to_percent 0) = 255
   \<and> (254 :: int) \<in> {0, 1, 128, 254, 255}
   \<and> percent_to_level (level_to_percent 254) = 252"
proof -
  have h1: "(128 :: int) \<in> {0, 1, 128, 254, 255}" by simp
  have h2: "(0 :: int) \<in> {0, 1, 128, 254, 255}" by simp
  have h3: "(254 :: int) \<in> {0, 1, 128, 254, 255}" by simp
  show ?thesis
    using h1 h2 h3 brightness_round_trip [OF h1] brightness_round_trip [OF h2]
      brightness_round_trip [OF h3]
    by simp
qed

text \<open>
  C5 as stated (within 1 on all five levels) fails at the levels 0, 1 and 254.
\<close>

theorem brightness_round_trip_counterexample:
  "\<not> \<bar>percent_to_level (level_to_percent 0) - 0\<bar> \<le> 1
   \<and> \<not> \<bar>percent_to_level (level_to_percent 1) - 1\<bar> \<le> 1
   \<and> \<not> \<bar>percent_to_level (level_to_percent 254) - 254\<bar> \<le> 1"
  by (simp add: percent_to_level_def level_to_percent_def)

section \<open>Properties of the command sequencer\<close>

text \<open>
  No write to the link sets \<open>is_on\<close> or \<open>light_on\<close> or touches the cached colour,
  brightness, effect or mode, whatever the transport answers.
\<close>

lemma store_decays_refl: "store_decays s s"
  by (simp add: store_decays_def)

lemma store_decays_trans: "store_decays a b \<Longrightarrow> store_decays b c \<Longrightarrow> store_decays a c"
  by (auto simp add: store_decays_def)

lemma callback_decays: "store_decays s (disconnected_callback s)"
  by (simp add: store_decays_def disconnected_callback_def Let_def)

lemma callback_sent: "sent (disconnected_callback s) = sent s"
  by (simp add: disconnected_callback_def Let_def)

lemma find_characteristics_fields:
  "is_on (find_characteristics cs s) = is_on s
   \<and> light_on (find_characteristics cs s) = light_on s
   \<and> color_on (find_characteristics cs s) = color_on s
   \<and> rgb_color (find_characteristics cs s) = rgb_color s
   \<and> brightness (find_characteristics cs s) = brightness s
   \<and> color_brightness (find_characteristics cs s) = color_brightness s
   \<and> effect (find_characteristics cs s) = effect s
   \<and> mode (find_characteristics cs s) = mode s
   \<and> trigger_update (find_characteristics cs s) = trigger_update s"
  by (induction cs arbitrary: s) (simp_all add: Let_def)

lemma find_characteristics_decays: "store_decays s (find_characteristics cs s)"
  by (simp add: store_decays_def find_characteristics_fields)

lemma find_characteristics_sent: "sent (find_characteristics cs s) = sent s"
  by (induction cs arbitrary: s) (simp_all add: Let_def)

lemma ensure_connected_decays: "store_decays s (snd (ensure_connected r s))"
proof -
  have a: "\<And>t f. store_decays s t \<Longrightarrow> store_decays s (t\<lparr>client := f\<rparr>)"
    by (simp add: store_decays_def)
  have b: "store_decays s (find_characteristics (chars r) (s\<lparr>device := Some Handle, client := Some Handle\<rparr>))"
    by (rule store_decays_trans [OF _ find_characteristics_decays]) (simp add: store_decays_def)
  have c: "store_decays s (disconnected_callback (find_characteristics (chars r) (s\<lparr>device := Some Handle, client := Some Handle\<rparr>)))"
    by (rule store_decays_trans [OF b callback_decays])
  show ?thesis
    using a [OF b] a [OF c] b
    by (simp add: ensure_connected_def Let_def) (simp add: store_decays_def)
qed

lemma ensure_connected_sent: "sent (snd (ensure_connected r s)) = sent s"
  by (simp add: ensure_connected_def Let_def find_characteristics_sent callback_sent)

lemma write_bytes_decays: "store_decays s (snd (write_bytes d s))"
proof -
  have "store_decays s (s\<lparr>link := tl (link s)\<rparr>)" by (simp add: store_decays_def)
  then have "store_decays s (snd (ensure_connected (next_reply s) (s\<lparr>link := tl (link s)\<rparr>)))"
    by (rule store_decays_trans [OF _ ensure_connected_decays])
  then show ?thesis
    by (simp add: write_bytes_def Let_def split: prod.splits) (auto simp add: store_decays_def)
qed

lemma write_bytes_sent: "sent (snd (write_bytes d s)) = sent s"
proof -
  have "sent (snd (ensure_connected (next_reply s) (s\<lparr>link := tl (link s)\<rparr>))) = sent s"
    by (simp add: ensure_connected_sent)
  then show ?thesis
    by (auto simp add: write_bytes_def Let_def split: prod.splits)
qed

lemma send_returns:
  assumes "send m s = Inr s'"
  shows "store_decays s s' \<and> sent s' = sent s @ [m]"
proof -
  from assms obtain p where p: "build_packet m = Inr p"
    and s': "s' = snd (write_bytes p (s\<lparr>sent := sent s @ [m]\<rparr>))"
    by (auto simp add: send_def send_packet_def Let_def split: sum.splits prod.splits)
  have "store_decays s (s\<lparr>sent := sent s @ [m]\<rparr>)" by (simp add: store_decays_def)
  then have "store_decays s s'"
    unfolding s' by (rule store_decays_trans [OF _ write_bytes_decays])
  moreover have "sent s' = sent s @ [m]" unfolding s' by (simp add: write_bytes_sent)
  ultimately show ?thesis by simp
qed

lemma send_step:
  assumes "list_all is_byte m" and "length m \<le> 248"
  shows "\<exists>s'. send m s = Inr s' \<and> store_decays s s' \<and> sent s' = sent s @ [m]"
proof -
  from build_packet_bytes [OF assms] obtain p where "build_packet m = Inr p" by blast
  then have "send m s = Inr (snd (write_bytes p (s\<lparr>sent := sent s @ [m]\<rparr>)))"
    by (simp add: send_def send_packet_def Let_def split: prod.splits)
  then obtain s' where s': "send m s = Inr s'" ..
  with send_returns [OF s'] show ?thesis by simp
qed

lemma send_decays: "send m s = Inr s' \<Longrightarrow> store_decays s s'"
  by (simp add: send_returns)

lemma cond_send_decays: "(if c then send m t else Inr t) = Inr t' \<Longrightarrow> store_decays t t'"
  by (cases c) (auto dest: send_decays simp add: store_decays_refl)

lemma store_ok_decays: "store_ok s \<Longrightarrow> store_decays s s' \<Longrightarrow> store_ok s'"
  by (simp add: store_ok_def store_decays_def)

lemma steps_decays:
  assumes "\<And>f t t'. f \<in> set fs \<Longrightarrow> f t = Inr t' \<Longrightarrow> store_decays t t'"
    and "steps fs s = Inr s'"
  shows "store_decays s s'"
  using assms
proof (induction fs arbitrary: s)
  case Nil
  then show ?case by (simp add: store_decays_refl)
next
  case (Cons f fs)
  from Cons.prems(2) obtain s1 where f: "f s = Inr s1" and rest: "steps fs s1 = Inr s'"
    by (auto split: sum.splits)
  have "store_decays s s1" using Cons.prems(1) [of f s s1] f by simp
  moreover have "store_decays s1 s'"
  proof (rule Cons.IH [OF _ rest])
    fix g t t'
    assume "g \<in> set fs" and "g t = Inr t'"
    then show "store_decays t t'" using Cons.prems(1) [of g t t'] by simp
  qed
  ultimately show ?case by (rule store_decays_trans)
qed

lemma steps_returns:
  assumes "\<And>f t. f \<in> set fs \<Longrightarrow> store_ok t \<Longrightarrow>
             \<exists>t' ps. f t = Inr t' \<and> store_decays t t' \<and> sent t' = sent t @ ps"
    and "store_ok s"
  shows "\<exists>s' ps. steps fs s = Inr s' \<and> store_decays s s' \<and> sent s' = sent s @ ps"
  using assms
proof (induction fs arbitrary: s)
  case Nil
  then show ?case by (simp add: store_decays_refl)
next
  case (Cons f fs)
  from Cons.prems(1) [of f s] Cons.prems(2)
  obtain s1 ps where f: "f s = Inr s1" and d1: "store_decays s s1" and p1: "sent s1 = sent s @ ps"
    by auto
  have ok1: "store_ok s1" using Cons.prems(2) d1 by (rule store_ok_decays)
  have "\<exists>t' ps. steps fs s1 = Inr t' \<and> store_decays s1 t' \<and> sent t' = sent s1 @ ps"
  proof (rule Cons.IH [OF _ ok1])
    fix g t
    assume "g \<in> set fs" and "store_ok t"
    then show "\<exists>t' ps. g t = Inr t' \<and> store_decays t t' \<and> sent t' = sent t @ ps"
      using Cons.prems(1) [of g t] by simp
  qed
  then obtain s2 qs where r: "steps fs s1 = Inr s2" and d2: "store_decays s1 s2"
    and p2: "sent s2 = sent s1 @ qs"
    by auto
  have "steps (f # fs) s = Inr s2" using f r by simp
  moreover have "store_decays s s2" using d1 d2 by (rule store_decays_trans)
  moreover have "sent s2 = sent s @ (ps @ qs)" using p1 p2 by simp
  ultimately show ?case by blast
qed

lemma trigger_status_decays: "trigger_status s = Inr s' \<Longrightarrow> store_decays s s'"
  unfolding trigger_status_def
  by (erule steps_decays [rotated]) (auto dest: send_decays)

lemma trigger_status_returns:
  "\<exists>s'. trigger_status s = Inr s' \<and> store_decays s s' \<and> sent s' = sent s @ [[0x30, 0x01], [0x30, 0x02]]"
proof -
  obtain s1 where s1: "send [0x30, 0x01] s = Inr s1" "store_decays s s1" "sent s1 = sent s @ [[0x30, 0x01]]"
    using send_step [of "[0x30, 0x01]" s] by (auto simp add: is_byte_def)
  obtain s2 where s2: "send [0x30, 0x02] s1 = Inr s2" "store_decays s1 s2" "sent s2 = sent s1 @ [[0x30, 0x02]]"
    using send_step [of "[0x30, 0x02]" s1] by (auto simp add: is_byte_def)
  have "trigger_status s = Inr s2" using s1(1) s2(1) by (simp add: trigger_status_def)
  moreover have "store_decays s s2" using s1(2) s2(2) by (rule store_decays_trans)
  ultimately show ?thesis using s1(3) s2(3) by simp
qed

lemma turn_off_decays: "turn_off s = Inr s' \<Longrightarrow> store_decays s s'"
  unfolding turn_off_def
  by (erule steps_decays [rotated]) (auto dest: send_decays trigger_status_decays)

lemma color_on_decays: "store_decays s (s\<lparr>color_on := b\<rparr>)"
  by (simp add: store_decays_def)

lemma turn_on_decays:
  assumes "turn_on s = Inr s'"
  shows "store_decays s s'"
proof (cases "mode s = WHITE")
  case True
  with assms have "steps [send [0x37, 0x01], trigger_status] s = Inr s'"
    by (simp add: turn_on_def)
  then show ?thesis
    by (rule steps_decays [rotated]) (auto dest: send_decays trigger_status_decays)
next
  case False
  let ?restore = "[(\<lambda>u. if truthy (effect u)
                           then send [0x34, find_effect_position (effect u)] u else Inr u),
                     (\<lambda>u. case rgb_color u of (r, g, b) \<Rightarrow> send [0x32, r, g, b] u),
                     (\<lambda>u. if color_brightness u \<noteq> 0
                           then send [0x31, 0x02, level_to_percent (color_brightness u)] u
                           else Inr u)]"
  have inner: "store_decays t t'" if "steps ?restore (t\<lparr>color_on := True\<rparr>) = Inr t'" for t t'
  proof -
    have "store_decays (t\<lparr>color_on := True\<rparr>) t'"
      using that
      by (rule steps_decays [rotated])
         (auto dest: cond_send_decays send_decays split: prod.splits)
    with color_on_decays [of t True] show ?thesis by (rule store_decays_trans)
  qed
  let ?mid = "\<lambda>t. if \<not> color_on t then steps ?restore (t\<lparr>color_on := True\<rparr>) else Inr t"
  from False assms have "steps [send [0x37, 0x02], ?mid, trigger_status] s = Inr s'"
    by (simp add: turn_on_def)
  then show ?thesis
  proof (rule steps_decays [rotated])
    fix f t t'
    assume mem: "f \<in> set [send [0x37, 0x02], ?mid, trigger_status]" and ft: "f t = Inr t'"
    from mem consider "f = send [0x37, 0x02]" | "f = ?mid" | "f = trigger_status"
      by auto
    then show "store_decays t t'"
    proof cases
      case 1
      with ft show ?thesis by (simp add: send_decays)
    next
      case 2
      show ?thesis
      proof (cases "color_on t")
        case True
        with ft 2 have "t' = t" by simp
        then show ?thesis by (simp add: store_decays_refl)
      next
        case off: False
        with ft 2 have "steps ?restore (t\<lparr>color_on := True\<rparr>) = Inr t'"
          by (simp del: steps.simps)
        then show ?thesis by (rule inner)
      qed
    next
      case 3
      with ft show ?thesis by (simp add: trigger_status_decays)
    qed
  qed
qed

lemma index_of_Some: "index_of xs x = Some i \<Longrightarrow> i < length xs \<and> xs ! i = x"
  by (induction xs arbitrary: i) (auto split: if_splits option.splits)

lemma index_of_None: "index_of xs x = None \<longleftrightarrow> x \<notin> set xs"
  by (induction xs) (auto split: option.splits)

lemma index_of_nth: "distinct xs \<Longrightarrow> i < length xs \<Longrightarrow> index_of xs (xs ! i) = Some i"
proof (induction xs arbitrary: i)
  case Nil
  then show ?case by simp
next
  case (Cons y ys)
  show ?case
  proof (cases i)
    case 0
    then show ?thesis by simp
  next
    case (Suc j)
    with Cons.prems have "j < length ys" and "distinct ys" and "ys ! j \<noteq> y"
      by auto
    with Cons.IH [of j] Suc show ?thesis by auto
  qed
qed

lemma distinct_supported_effects: "distinct supported_effects"
  by (simp add: supported_effects_def)

lemma find_effect_position_range:
  "0 \<le> find_effect_position e \<and> find_effect_position e < int (length supported_effects)"
proof (cases e)
  case None
  then show ?thesis by (simp add: find_effect_position_def supported_effects_def)
next
  case (Some name)
  show ?thesis
  proof (cases "index_of supported_effects name")
    case None
    with Some show ?thesis by (simp add: find_effect_position_def supported_effects_def)
  next
    case (Some i)
    with index_of_Some [OF Some] \<open>e = Some name\<close> show ?thesis
      by (simp add: find_effect_position_def)
  qed
qed

lemma effect_payload_bytes: "list_all is_byte [0x34, find_effect_position e]"
  using find_effect_position_range [of e]
  by (simp add: is_byte_def supported_effects_def)

lemma level_to_percent_byte:
  "0 \<le> b \<Longrightarrow> b \<le> 650 \<Longrightarrow> is_byte (level_to_percent b)"
  unfolding is_byte_def level_to_percent_def by simp arith

lemma turn_on_returns:
  assumes "store_ok s"
  shows "\<exists>s' ps. turn_on s = Inr s' \<and> store_decays s s' \<and> sent s' = sent s @ ps"
proof -
  have send_ok: "\<exists>t' ps. send m t = Inr t' \<and> store_decays t t' \<and> sent t' = sent t @ ps"
    if "list_all is_byte m" "length m \<le> 248" for m t
    using send_step [OF that, of t] by blast
  have skip_ok: "\<exists>t' ps. Inr t = Inr t' \<and> store_decays t t' \<and> sent t' = sent t @ ps" for t :: beurer
    by (simp add: store_decays_refl)
  have status_ok: "\<exists>t' ps. trigger_status t = Inr t' \<and> store_decays t t' \<and> sent t' = sent t @ ps" for t
    using trigger_status_returns [of t] by blast
  let ?restore = "[(\<lambda>u. if truthy (effect u)
                           then send [0x34, find_effect_position (effect u)] u else Inr u),
                     (\<lambda>u. case rgb_color u of (r, g, b) \<Rightarrow> send [0x32, r, g, b] u),
                     (\<lambda>u. if color_brightness u \<noteq> 0
                           then send [0x31, 0x02, level_to_percent (color_brightness u)] u
                           else Inr u)]"
  let ?mid = "\<lambda>t. if \<not> color_on t then steps ?restore (t\<lparr>color_on := True\<rparr>) else Inr t"
  have restore_ok: "\<exists>t' ps. f t = Inr t' \<and> store_decays t t' \<and> sent t' = sent t @ ps"
    if mem: "f \<in> set ?restore" and ok: "store_ok t" for f t
  proof -
    from mem consider "f = ?restore ! 0" | "f = ?restore ! 1" | "f = ?restore ! 2" by auto
    then show ?thesis
    proof cases
      case 1
      then show ?thesis using send_ok [OF effect_payload_bytes, of "effect t" t] skip_ok [of t]
        by simp
    next
      case 2
      obtain r g b where rgb: "rgb_color t = (r, g, b)" by (cases "rgb_color t")
      with ok have "list_all is_byte [0x32, r, g, b]" by (simp add: store_ok_def is_byte_def)
      from send_ok [OF this, of t] 2 rgb show ?thesis by simp
    next
      case 3
      from ok have "list_all is_byte [0x31, 0x02, level_to_percent (color_brightness t)]"
        using level_to_percent_byte [of "color_brightness t"]
        by (simp add: store_ok_def) (simp add: is_byte_def)
      from send_ok [OF this, of t] skip_ok [of t] 3 show ?thesis by simp
    qed
  qed
  have mid_ok: "\<exists>t' ps. ?mid t = Inr t' \<and> store_decays t t' \<and> sent t' = sent t @ ps"
    if ok: "store_ok t" for t
  proof (cases "color_on t")
    case True
    then show ?thesis by (simp add: store_decays_refl)
  next
    case False
    have ok': "store_ok (t\<lparr>color_on := True\<rparr>)" using ok by (simp add: store_ok_def)
    have "\<exists>t' ps. steps ?restore (t\<lparr>color_on := True\<rparr>) = Inr t'
            \<and> store_decays (t\<lparr>color_on := True\<rparr>) t'
            \<and> sent t' = sent (t\<lparr>color_on := True\<rparr>) @ ps"
    proof (rule steps_returns [OF _ ok'])
      fix f u
      assume "f \<in> set ?restore" and "store_ok u"
      then show "\<exists>t' ps. f u = Inr t' \<and> store_decays u t' \<and> sent t' = sent u @ ps"
        by (rule restore_ok)
    qed
    then obtain t' ps where r: "steps ?restore (t\<lparr>color_on := True\<rparr>) = Inr t'"
      and d: "store_decays (t\<lparr>color_on := True\<rparr>) t'" and p: "sent t' = sent t @ ps"
      by auto
    have "store_decays t t'" using color_on_decays d by (rule store_decays_trans)
    with r p False show ?thesis by (simp del: steps.simps)
  qed
  show ?thesis
  proof (cases "mode s = WHITE")
    case True
    have "\<exists>s' ps. steps [send [0x37, 0x01], trigger_status] s = Inr s'
            \<and> store_decays s s' \<and> sent s' = sent s @ ps"
    proof (rule steps_returns [OF _ assms])
      fix f t
      assume "f \<in> set [send [0x37, 0x01], trigger_status]" and "store_ok t"
      then consider "f = send [0x37, 0x01]" | "f = trigger_status" by auto
      then show "\<exists>t' ps. f t = Inr t' \<and> store_decays t t' \<and> sent t' = sent t @ ps"
      proof cases
        case 1
        then show ?thesis using send_ok [of "[0x37, 0x01]" t] by (simp add: is_byte_def)
      next
        case 2
        then show ?thesis using status_ok [of t] by simp
      qed
    qed
    with True show ?thesis by (simp add: turn_on_def del: steps.simps)
  next
    case False
    have "\<exists>s' ps. steps [send [0x37, 0x02], ?mid, trigger_status] s = Inr s'
            \<and> store_decays s s' \<and> sent s' = sent s @ ps"
    proof (rule steps_returns [OF _ assms])
      fix f t
      assume "f \<in> set [send [0x37, 0x02], ?mid, trigger_status]" and ok: "store_ok t"
      then consider "f = send [0x37, 0x02]" | "f = ?mid" | "f = trigger_status" by auto
      then show "\<exists>t' ps. f t = Inr t' \<and> store_decays t t' \<and> sent t' = sent t @ ps"
      proof cases
        case 1
        then show ?thesis using send_ok [of "[0x37, 0x02]" t] by (simp add: is_byte_def)
      next
        case 2
        then show ?thesis using mid_ok [OF ok] by (simp del: steps.simps)
      next
        case 3
        then show ?thesis using status_ok [of t] by simp
      qed
    qed
    with False show ?thesis by (simp add: turn_on_def del: steps.simps)
  qed
qed

text \<open>
  On steady answers a write leaves the cached device state exactly as it is.
\<close>

lemma store_same_refl: "store_same s s"
  by (simp add: store_same_def)

lemma store_same_trans: "store_same a b \<Longrightarrow> store_same b c \<Longrightarrow> store_same a c"
  by (simp add: store_same_def)

lemma find_characteristics_write:
  "truthy (write_uuid s) \<or> list_ex (\<lambda>u. u \<in> set WRITE_CHARACTERISTIC_UUIDS) cs
   \<Longrightarrow> truthy (write_uuid (find_characteristics cs s))"
  by (induction cs arbitrary: s)
     (auto simp add: Let_def truthy_def WRITE_CHARACTERISTIC_UUIDS_def)

lemma find_characteristics_read:
  "truthy (read_uuid s) \<or> list_ex (\<lambda>u. u \<in> set READ_CHARACTERISTIC_UUIDS) cs
   \<Longrightarrow> truthy (read_uuid (find_characteristics cs s))"
  by (induction cs arbitrary: s)
     (auto simp add: Let_def truthy_def READ_CHARACTERISTIC_UUIDS_def)

lemma find_characteristics_both:
  "has_both cs \<Longrightarrow> truthy (read_uuid (find_characteristics cs s))
                     \<and> truthy (write_uuid (find_characteristics cs s))"
  by (simp add: has_both_def find_characteristics_write find_characteristics_read)

lemma find_characteristics_log:
  "wire (find_characteristics cs s) = wire s \<and> link (find_characteristics cs s) = link s"
  by (induction cs arbitrary: s) (simp_all add: Let_def)

lemma ensure_connected_log:
  "wire (snd (ensure_connected r s)) = wire s \<and> link (snd (ensure_connected r s)) = link s"
  by (simp add: ensure_connected_def Let_def find_characteristics_log disconnected_callback_def)

lemma ensure_connected_same:
  assumes "steady r"
  shows "store_same s (snd (ensure_connected r s))"
proof -
  let ?s2 = "find_characteristics (chars r) (s\<lparr>device := Some Handle, client := Some Handle\<rparr>)"
  have same2: "store_same s ?s2"
    by (simp add: store_same_def find_characteristics_fields)
  have no_cb: "truthy (read_uuid ?s2) \<and> truthy (write_uuid ?s2)" if "disc_cb r"
    using that assms by (simp add: steady_def find_characteristics_both)
  show ?thesis
    using same2 no_cb
    by (auto simp add: ensure_connected_def Let_def store_same_def)
qed

lemma ensure_connected_working:
  assumes "working r"
  shows "fst (ensure_connected r s)"
proof -
  let ?s2 = "find_characteristics (chars r) (s\<lparr>device := Some Handle, client := Some Handle\<rparr>)"
  have "truthy (read_uuid ?s2) \<and> truthy (write_uuid ?s2)"
    using assms by (simp add: working_def find_characteristics_both)
  then show ?thesis
    using assms by (simp add: ensure_connected_def Let_def working_def)
qed

lemma steady_next: "steady_link s \<Longrightarrow> steady (next_reply s)"
  by (cases "link s") (simp_all add: steady_link_def next_reply_def steady_def silent_def)

lemma write_bytes_same:
  assumes "steady_link s"
  shows "store_same s (snd (write_bytes d s)) \<and> steady_link (snd (write_bytes d s))"
proof -
  let ?s0 = "s\<lparr>link := tl (link s)\<rparr>"
  let ?s1 = "snd (ensure_connected (next_reply s) ?s0)"
  have "store_same ?s0 ?s1" using steady_next [OF assms] by (rule ensure_connected_same)
  moreover have "store_same s ?s0" by (simp add: store_same_def)
  ultimately have a: "store_same s ?s1" by (rule store_same_trans [rotated])
  have "link ?s1 = tl (link s)" by (simp add: ensure_connected_log)
  moreover have "list_all steady (tl (link s))"
    using assms by (cases "link s") (simp_all add: steady_link_def)
  ultimately have b: "steady_link ?s1" by (simp add: steady_link_def)
  show ?thesis
    using a b
    by (auto simp add: write_bytes_def Let_def store_same_def steady_link_def split: prod.splits)
qed

lemma send_same:
  assumes "steady_link s" and "send m s = Inr s'"
  shows "store_same s s' \<and> steady_link s'"
proof -
  let ?s0 = "s\<lparr>sent := sent s @ [m]\<rparr>"
  from assms(2) obtain p where p: "build_packet m = Inr p"
    and s': "s' = snd (write_bytes p ?s0)"
    by (auto simp add: send_def send_packet_def Let_def split: sum.splits prod.splits)
  have "steady_link ?s0" using assms(1) by (simp add: steady_link_def)
  from write_bytes_same [OF this, of p]
  have a: "store_same ?s0 s'" and st: "steady_link s'" unfolding s' by simp_all
  have "store_same s ?s0" by (simp add: store_same_def)
  then have "store_same s s'" using a by (rule store_same_trans)
  with st show ?thesis by simp
qed

lemma steps_same:
  assumes "\<And>f t t'. f \<in> set fs \<Longrightarrow> steady_link t \<Longrightarrow> f t = Inr t'
             \<Longrightarrow> store_same t t' \<and> steady_link t'"
    and "steady_link s" and "steps fs s = Inr s'"
  shows "store_same s s' \<and> steady_link s'"
  using assms
proof (induction fs arbitrary: s)
  case Nil
  then show ?case by (simp add: store_same_refl)
next
  case (Cons f fs)
  from Cons.prems(3) obtain s1 where f: "f s = Inr s1" and rest: "steps fs s1 = Inr s'"
    by (auto split: sum.splits)
  have one: "store_same s s1 \<and> steady_link s1"
    using Cons.prems(1) [of f s s1] Cons.prems(2) f by simp
  have "store_same s1 s' \<and> steady_link s'"
  proof (rule Cons.IH [OF _ _ rest])
    fix g t t'
    assume "g \<in> set fs" and "steady_link t" and "g t = Inr t'"
    then show "store_same t t' \<and> steady_link t'" using Cons.prems(1) [of g t t'] by simp
  next
    show "steady_link s1" using one by simp
  qed
  with one show ?case by (auto intro: store_same_trans)
qed

lemma trigger_status_same:
  assumes "steady_link s" and "trigger_status s = Inr s'"
  shows "store_same s s' \<and> steady_link s'"
proof (rule steps_same [OF _ assms(1)])
  show "steps [send [0x30, 0x01], send [0x30, 0x02]] s = Inr s'"
    using assms(2) by (simp add: trigger_status_def)
next
  fix f t t'
  assume "f \<in> set [send [0x30, 0x01], send [0x30, 0x02]]" and "steady_link t" and "f t = Inr t'"
  then show "store_same t t' \<and> steady_link t'" by (auto dest: send_same)
qed

lemma turn_off_same:
  assumes "steady_link s" and "turn_off s = Inr s'"
  shows "store_same s s' \<and> steady_link s'"
proof (rule steps_same [OF _ assms(1)])
  show "steps [send [0x35, 0x01], send [0x35, 0x02], trigger_status] s = Inr s'"
    using assms(2) by (simp add: turn_off_def)
next
  fix f t t'
  assume "f \<in> set [send [0x35, 0x01], send [0x35, 0x02], trigger_status]"
    and "steady_link t" and "f t = Inr t'"
  then show "store_same t t' \<and> steady_link t'"
    by (auto dest: send_same trigger_status_same)
qed

lemma turn_on_same:
  assumes "steady_link s" and "turn_on s = Inr s'"
  shows "store_same (s\<lparr>color_on := (color_on s \<or> mode s = RGB)\<rparr>) s' \<and> steady_link s'"
proof (cases "mode s = WHITE")
  case True
  have "store_same s s' \<and> steady_link s'"
  proof (rule steps_same [OF _ assms(1)])
    show "steps [send [0x37, 0x01], trigger_status] s = Inr s'"
      using assms(2) True by (simp add: turn_on_def)
  next
    fix f t t'
    assume "f \<in> set [send [0x37, 0x01], trigger_status]" and "steady_link t" and "f t = Inr t'"
    then show "store_same t t' \<and> steady_link t'"
      by (auto dest: send_same trigger_status_same)
  qed
  with True show ?thesis by (simp add: store_same_def)
next
  case False
  then have rgb: "mode s = RGB" by (cases "mode s") simp_all
  let ?restore = "[(\<lambda>u. if truthy (effect u)
                           then send [0x34, find_effect_position (effect u)] u else Inr u),
                     (\<lambda>u. case rgb_color u of (r, g, b) \<Rightarrow> send [0x32, r, g, b] u),
                     (\<lambda>u. if color_brightness u \<noteq> 0
                           then send [0x31, 0x02, level_to_percent (color_brightness u)] u
                           else Inr u)]"
  let ?mid = "\<lambda>t. if \<not> color_on t then steps ?restore (t\<lparr>color_on := True\<rparr>) else Inr t"
  from False assms(2) have run: "steps [send [0x37, 0x02], ?mid, trigger_status] s = Inr s'"
    by (simp add: turn_on_def)
  then obtain t1 t2 where t1: "send [0x37, 0x02] s = Inr t1" and t2: "?mid t1 = Inr t2"
    and t3: "trigger_status t2 = Inr s'"
    by (auto simp del: steps.simps(2) simp add: steps.simps(2) [of "send [0x37, 0x02]"]
        steps.simps(2) [of ?mid] steps.simps(2) [of trigger_status] split: sum.splits)
  from send_same [OF assms(1) t1] have a: "store_same s t1" "steady_link t1" by simp_all
  have b: "store_same (t1\<lparr>color_on := True\<rparr>) t2 \<and> steady_link t2"
  proof (cases "color_on t1")
    case True
    with t2 a(2) show ?thesis by (simp add: store_same_def)
  next
    case off: False
    with t2 have r: "steps ?restore (t1\<lparr>color_on := True\<rparr>) = Inr t2"
      by (simp del: steps.simps)
    have st: "steady_link (t1\<lparr>color_on := True\<rparr>)" using a(2) by (simp add: steady_link_def)
    show ?thesis
    proof (rule steps_same [OF _ st r])
      fix f t t'
      assume "f \<in> set ?restore" and "steady_link t" and "f t = Inr t'"
      then show "store_same t t' \<and> steady_link t'"
        by (auto dest: send_same simp add: store_same_refl split: if_splits prod.splits)
    qed
  qed
  from trigger_status_same [OF _ t3] b have c: "store_same t2 s'" "steady_link s'" by simp_all
  have "store_same (s\<lparr>color_on := True\<rparr>) (t1\<lparr>color_on := True\<rparr>)"
    using a(1) by (simp add: store_same_def)
  with b c(1) have "store_same (s\<lparr>color_on := True\<rparr>) s'"
    by (blast intro: store_same_trans)
  with rgb c(2) show ?thesis by simp
qed

text \<open>
  On working answers every payload handed to \<^verbatim>\<open>_send_packet\<close> reaches the link as
  its frame.
\<close>

lemma delivered_refl: "delivered s s []"
  by (simp add: delivered_def store_decays_refl)

lemma delivered_trans:
  "delivered a b ps \<Longrightarrow> delivered b c qs \<Longrightarrow> delivered a c (ps @ qs)"
  by (auto simp add: delivered_def add.commute intro: store_decays_trans)

lemma ready_mono: "ready k s \<Longrightarrow> j \<le> k \<Longrightarrow> ready j s"
  by (simp add: ready_def)

lemma ready_after:
  assumes "ready (k + n) s" and "delivered s s' ps" and "length ps \<le> k"
  shows "ready n s'"
proof -
  from assms(2) have l: "link s' = drop (length ps) (link s)" and d: "store_decays s s'"
    by (simp_all add: delivered_def)
  have "store_ok s'" using assms(1) d by (auto simp add: ready_def intro: store_ok_decays)
  moreover have "list_all working (link s')"
    using assms(1) unfolding l ready_def list_all_iff by (auto dest: in_set_dropD)
  moreover have "n \<le> length (link s')" using assms(1,3) unfolding l ready_def by auto
  ultimately show ?thesis by (simp add: ready_def)
qed

lemma write_bytes_working:
  assumes "list_all working (link s)" and "link s \<noteq> []"
  shows "fst (write_bytes d s) \<and> wire (snd (write_bytes d s)) = wire s @ [d]
         \<and> link (snd (write_bytes d s)) = tl (link s)"
proof -
  from assms obtain r rest where l: "link s = r # rest" and w: "working r"
    by (cases "link s") simp_all
  let ?s0 = "s\<lparr>link := tl (link s)\<rparr>"
  obtain ok s1 where e: "ensure_connected r ?s0 = (ok, s1)" by (cases "ensure_connected r ?s0")
  have "ok" using ensure_connected_working [OF w, of ?s0] e by simp
  moreover have "wire s1 = wire s" "link s1 = tl (link s)"
    using ensure_connected_log [of r ?s0] e by simp_all
  moreover have "write_ok r" using w by (simp add: working_def)
  ultimately show ?thesis
    using e l by (simp add: write_bytes_def next_reply_def)
qed

lemma send_delivers:
  assumes "list_all is_byte m" and "length m \<le> 248" and "ready 1 s"
  shows "\<exists>s'. send m s = Inr s' \<and> delivered s s' [m]"
proof -
  from build_packet_bytes [OF assms(1,2)] obtain p where p: "build_packet m = Inr p" by blast
  let ?s0 = "s\<lparr>sent := sent s @ [m]\<rparr>"
  let ?s' = "snd (write_bytes p ?s0)"
  have run: "send m s = Inr ?s'"
    using p by (simp add: send_def send_packet_def Let_def split: prod.splits)
  have l: "list_all working (link ?s0)" "link ?s0 \<noteq> []"
    using assms(3) by (auto simp add: ready_def)
  from write_bytes_working [OF l, of p]
  have "wire ?s' = wire s @ [p]" "link ?s' = tl (link s)" by simp_all
  moreover have "sent ?s' = sent s @ [m]" by (simp add: write_bytes_sent)
  moreover have "store_decays s ?s'" using run by (rule send_decays)
  ultimately have "delivered s ?s' [m]"
    using p by (simp add: delivered_def drop_Suc frame_of_def)
  with run show ?thesis by blast
qed

lemma step_seq:
  assumes f: "\<And>t. ready k t \<Longrightarrow> \<exists>t' ps. f t = Inr t' \<and> delivered t t' ps \<and> length ps \<le> k"
    and g: "\<And>t. ready n t \<Longrightarrow> \<exists>t' ps. steps fs t = Inr t' \<and> delivered t t' ps \<and> length ps \<le> n"
    and m: "k + n \<le> m" and r: "ready m s"
  shows "\<exists>s' ps. steps (f # fs) s = Inr s' \<and> delivered s s' ps \<and> length ps \<le> m"
proof -
  have rs: "ready (k + n) s" using r m by (rule ready_mono)
  then have "ready k s" by (rule ready_mono) simp
  from f [OF this] obtain t1 ps where 1: "f s = Inr t1" "delivered s t1 ps" "length ps \<le> k"
    by blast
  have "ready n t1" using rs 1(2,3) by (rule ready_after)
  from g [OF this] obtain t2 qs where 2: "steps fs t1 = Inr t2" "delivered t1 t2 qs" "length qs \<le> n"
    by blast
  have "steps (f # fs) s = Inr t2" using 1(1) 2(1) by simp
  moreover have "delivered s t2 (ps @ qs)" using 1(2) 2(2) by (rule delivered_trans)
  moreover have "length (ps @ qs) \<le> m" using 1(3) 2(3) m by simp
  ultimately show ?thesis by blast
qed

lemma steps_nil_delivers:
  "\<exists>t' ps. steps [] t = Inr t' \<and> delivered t t' ps \<and> length ps \<le> 0"
  by (simp add: delivered_refl)

lemma send_uses_one:
  assumes "list_all is_byte m" and "length m \<le> 248" and "ready 1 t"
  shows "\<exists>t' ps. send m t = Inr t' \<and> delivered t t' ps \<and> length ps \<le> 1"
proof -
  from send_delivers [OF assms] obtain t' where "send m t = Inr t'" "delivered t t' [m]"
    by blast
  then show ?thesis by (intro exI [of _ t'] exI [of _ "[m]"]) simp
qed

lemma skip_uses_none:
  "\<exists>t' ps. Inr t = Inr t' \<and> delivered t t' ps \<and> length ps \<le> k"
  by (intro exI [of _ t] exI [of _ "[]"]) (simp add: delivered_refl)

lemma trigger_status_delivers:
  assumes "ready 2 s"
  shows "\<exists>s'. trigger_status s = Inr s' \<and> delivered s s' [[0x30, 0x01], [0x30, 0x02]]"
proof -
  have "ready 1 s" using assms by (rule ready_mono) simp
  from send_delivers [OF _ _ this, of "[0x30, 0x01]"]
  obtain t1 where 1: "send [0x30, 0x01] s = Inr t1" "delivered s t1 [[0x30, 0x01]]"
    by (auto simp add: is_byte_def)
  have "ready (1 + 1) s" using assms by (simp add: numeral_2_eq_2)
  then have "ready 1 t1" using 1(2) by (rule ready_after) simp
  from send_delivers [OF _ _ this, of "[0x30, 0x02]"]
  obtain t2 where 2: "send [0x30, 0x02] t1 = Inr t2" "delivered t1 t2 [[0x30, 0x02]]"
    by (auto simp add: is_byte_def)
  have "trigger_status s = Inr t2" using 1(1) 2(1) by (simp add: trigger_status_def)
  moreover have "delivered s t2 ([[0x30, 0x01]] @ [[0x30, 0x02]])"
    using 1(2) 2(2) by (rule delivered_trans)
  ultimately show ?thesis by simp
qed

lemma trigger_status_uses_two:
  assumes "ready 2 t"
  shows "\<exists>t' ps. steps [trigger_status] t = Inr t' \<and> delivered t t' ps \<and> length ps \<le> 2"
proof -
  from trigger_status_delivers [OF assms]
  obtain t' where "trigger_status t = Inr t'" "delivered t t' [[0x30, 0x01], [0x30, 0x02]]"
    by blast
  then show ?thesis
    by (intro exI [of _ t'] exI [of _ "[[0x30, 0x01], [0x30, 0x02]]"]) simp
qed

lemma delivered_color_on: "delivered (t\<lparr>color_on := b\<rparr>) t' ps \<Longrightarrow> delivered t t' ps"
  by (simp add: delivered_def store_decays_def)

lemma ready_color_on: "ready k t \<Longrightarrow> ready k (t\<lparr>color_on := b\<rparr>)"
  by (simp add: ready_def store_ok_def)

lemma restore_delivers:
  assumes "ready 3 t"
  shows "\<exists>t' ps.
           steps [(\<lambda>u. if truthy (effect u)
                       then send [0x34, find_effect_position (effect u)] u else Inr u),
                  (\<lambda>u. case rgb_color u of (r, g, b) \<Rightarrow> send [0x32, r, g, b] u),
                  (\<lambda>u. if color_brightness u \<noteq> 0
                       then send [0x31, 0x02, level_to_percent (color_brightness u)] u
                       else Inr u)] t = Inr t'
           \<and> delivered t t' ps \<and> length ps \<le> 3"
proof -
  let ?f1 = "\<lambda>u. if truthy (effect u)
                  then send [0x34, find_effect_position (effect u)] u else Inr u"
  let ?f2 = "\<lambda>u. case rgb_color u of (r, g, b) \<Rightarrow> send [0x32, r, g, b] u"
  let ?f3 = "\<lambda>u. if color_brightness u \<noteq> 0
                  then send [0x31, 0x02, level_to_percent (color_brightness u)] u
                  else Inr u"
  have f1: "\<exists>t' ps. ?f1 u = Inr t' \<and> delivered u t' ps \<and> length ps \<le> 1" if "ready 1 u" for u
    using send_uses_one [OF effect_payload_bytes _ that, of "effect u"] skip_uses_none [of u 1]
    by simp
  have f2: "\<exists>t' ps. ?f2 u = Inr t' \<and> delivered u t' ps \<and> length ps \<le> 1" if "ready 1 u" for u
  proof -
    obtain r g b where rgb: "rgb_color u = (r, g, b)" by (cases "rgb_color u")
    with that have "list_all is_byte [0x32, r, g, b]"
      by (simp add: ready_def store_ok_def is_byte_def)
    from send_uses_one [OF this _ that] rgb show ?thesis by simp
  qed
  have f3: "\<exists>t' ps. ?f3 u = Inr t' \<and> delivered u t' ps \<and> length ps \<le> 1" if "ready 1 u" for u
  proof -
    from that have "is_byte (level_to_percent (color_brightness u))"
      by (simp add: ready_def store_ok_def level_to_percent_byte)
    then have "list_all is_byte [0x31, 0x02, level_to_percent (color_brightness u)]"
      by (simp add: is_byte_def)
    from send_uses_one [OF this _ that] skip_uses_none [of u 1] show ?thesis by simp
  qed
  have le1: "(1::nat) + 0 \<le> 1" and le2: "(1::nat) + 1 \<le> 2" and le3: "(1::nat) + 2 \<le> 3"
    by simp_all
  have g3: "\<exists>t' ps. steps [?f3] u = Inr t' \<and> delivered u t' ps \<and> length ps \<le> 1"
    if "ready 1 u" for u
    by (rule step_seq [OF f3 steps_nil_delivers le1 that])
  have g2: "\<exists>t' ps. steps [?f2, ?f3] u = Inr t' \<and> delivered u t' ps \<and> length ps \<le> 2"
    if "ready 2 u" for u
    by (rule step_seq [OF f2 g3 le2 that])
  show ?thesis
    by (rule step_seq [OF f1 g2 le3 assms])
qed

lemma turn_on_delivers:
  assumes "ready 6 s"
  shows "\<exists>s' ps. turn_on s = Inr s' \<and> delivered s s' ps \<and> length ps \<le> 6"
proof -
  let ?restore = "[(\<lambda>u. if truthy (effect u)
                           then send [0x34, find_effect_position (effect u)] u else Inr u),
                     (\<lambda>u. case rgb_color u of (r, g, b) \<Rightarrow> send [0x32, r, g, b] u),
                     (\<lambda>u. if color_brightness u \<noteq> 0
                           then send [0x31, 0x02, level_to_percent (color_brightness u)] u
                           else Inr u)]"
  let ?mid = "\<lambda>t. if \<not> color_on t then steps ?restore (t\<lparr>color_on := True\<rparr>) else Inr t"
  have le: "(1::nat) + 2 \<le> 6" "(3::nat) + 2 \<le> 5" "(1::nat) + 5 \<le> 6" by simp_all
  have on1: "\<exists>t' ps. send [0x37, 0x01] t = Inr t' \<and> delivered t t' ps \<and> length ps \<le> 1"
    if "ready 1 t" for t
    using send_uses_one [OF _ _ that, of "[0x37, 0x01]"] by (simp add: is_byte_def)
  have on2: "\<exists>t' ps. send [0x37, 0x02] t = Inr t' \<and> delivered t t' ps \<and> length ps \<le> 1"
    if "ready 1 t" for t
    using send_uses_one [OF _ _ that, of "[0x37, 0x02]"] by (simp add: is_byte_def)
  have mid: "\<exists>t' ps. ?mid t = Inr t' \<and> delivered t t' ps \<and> length ps \<le> 3" if "ready 3 t" for t
  proof (cases "color_on t")
    case True
    then show ?thesis using skip_uses_none [of t 3] by simp
  next
    case False
    from restore_delivers [OF ready_color_on [OF that, of True]]
    obtain t' ps where "steps ?restore (t\<lparr>color_on := True\<rparr>) = Inr t'"
      and "delivered (t\<lparr>color_on := True\<rparr>) t' ps" and "length ps \<le> 3"
      by blast
    with False delivered_color_on [where t = t and b = True and t' = t' and ps = ps] show ?thesis
      by (simp del: steps.simps) blast
  qed
  have tail: "\<exists>t' ps. steps [?mid, trigger_status] t = Inr t' \<and> delivered t t' ps \<and> length ps \<le> 5"
    if "ready 5 t" for t
    by (rule step_seq [OF mid trigger_status_uses_two le(2) that])
  show ?thesis
  proof (cases "mode s = WHITE")
    case True
    have "\<exists>s' ps. steps [send [0x37, 0x01], trigger_status] s = Inr s'
            \<and> delivered s s' ps \<and> length ps \<le> 6"
      by (rule step_seq [OF on1 trigger_status_uses_two le(1) assms])
    with True show ?thesis by (simp add: turn_on_def del: steps.simps)
  next
    case False
    have "\<exists>s' ps. steps [send [0x37, 0x02], ?mid, trigger_status] s = Inr s'
            \<and> delivered s s' ps \<and> length ps \<le> 6"
      by (rule step_seq [OF on2 tail le(3) assms])
    with False show ?thesis by (simp add: turn_on_def del: steps.simps)
  qed
qed

lemma frame_of_bytes:
  assumes "list_all is_byte P" and "length P \<le> 248"
  shows "frame_of P =
           [0xFE, 0xEF, 0x0A, int (length P) + 7, 0xAB, 0xAA, int (length P) + 2] @ P
             @ [foldl (XOR) (int (length P) + 2) P, 0x55, 0x0D, 0x0A]"
  using build_packet_bytes [OF assms] by (simp add: frame_of_def make_checksum_foldl)

lemma set_effect_delivers:
  assumes "ready 9 s"
  shows "\<exists>s' pre. set_effect name s = Inr s'
           \<and> sent s' = sent s @ pre
                @ [[0x34, find_effect_position (Some name)], [0x30, 0x01], [0x30, 0x02]]
           \<and> wire s' = wire s @ map frame_of pre
                @ [[0xFE, 0xEF, 0x0A, 9, 0xAB, 0xAA, 4, 0x34, find_effect_position (Some name),
                    foldl (XOR) 4 [0x34, find_effect_position (Some name)], 0x55, 0x0D, 0x0A],
                   [0xFE, 0xEF, 0x0A, 9, 0xAB, 0xAA, 4, 0x30, 0x01, 0x35, 0x55, 0x0D, 0x0A],
                   [0xFE, 0xEF, 0x0A, 9, 0xAB, 0xAA, 4, 0x30, 0x02, 0x36, 0x55, 0x0D, 0x0A]]"
proof -
  let ?i = "find_effect_position (Some name)"
  let ?s0 = "s\<lparr>mode := RGB, effect := Some name\<rparr>"
  let ?first = "\<lambda>t. if \<not> color_on t then turn_on t else Inr t"
  have r0: "ready 9 ?s0" using assms by (simp add: ready_def store_ok_def)
  have "\<exists>t pre. ?first ?s0 = Inr t \<and> delivered ?s0 t pre \<and> length pre \<le> 6"
  proof (cases "color_on s")
    case True
    then show ?thesis using skip_uses_none [of ?s0 6] by simp
  next
    case False
    have "ready 6 ?s0" using r0 by (rule ready_mono) simp
    from turn_on_delivers [OF this] False show ?thesis by simp
  qed
  then obtain t1 pre where t1: "?first ?s0 = Inr t1" "delivered ?s0 t1 pre" "length pre \<le> 6"
    by blast
  have "ready (6 + 3) ?s0" using r0 by simp
  then have r1: "ready 3 t1" using t1(2,3) by (rule ready_after)
  then have "ready 1 t1" by (rule ready_mono) simp
  from send_delivers [OF effect_payload_bytes _ this, of "Some name"]
  obtain t2 where t2: "send [0x34, ?i] t1 = Inr t2" "delivered t1 t2 [[0x34, ?i]]" by auto
  have "ready (1 + 2) t1" using r1 by (simp add: numeral_3_eq_3)
  then have "ready 2 t2" using t2(2) by (rule ready_after) simp
  from trigger_status_delivers [OF this]
  obtain t3 where t3: "trigger_status t2 = Inr t3"
    "delivered t2 t3 [[0x30, 0x01], [0x30, 0x02]]" by blast
  have run: "set_effect name s = Inr t3"
    using t1(1) t2(1) t3(1) by (simp add: set_effect_def)
  have "delivered ?s0 t3 (pre @ [[0x34, ?i]] @ [[0x30, 0x01], [0x30, 0x02]])"
    using t1(2) delivered_trans [OF t2(2) t3(2)] by (rule delivered_trans)
  then have se: "sent t3 = sent s @ pre @ [[0x34, ?i], [0x30, 0x01], [0x30, 0x02]]"
    and wi: "wire t3 = wire s @ map frame_of pre
               @ [frame_of [0x34, ?i], frame_of [0x30, 0x01], frame_of [0x30, 0x02]]"
    by (simp_all add: delivered_def)
  have f1: "frame_of [0x34, ?i] =
              [0xFE, 0xEF, 0x0A, 9, 0xAB, 0xAA, 4, 0x34, ?i, foldl (XOR) 4 [0x34, ?i],
               0x55, 0x0D, 0x0A]"
    using frame_of_bytes [OF effect_payload_bytes, of "Some name"] by simp
  have f2: "frame_of [0x30, 0x01] = [0xFE, 0xEF, 0x0A, 9, 0xAB, 0xAA, 4, 0x30, 0x01, 0x35, 0x55, 0x0D, 0x0A]"
    "frame_of [0x30, 0x02] = [0xFE, 0xEF, 0x0A, 9, 0xAB, 0xAA, 4, 0x30, 0x02, 0x36, 0x55, 0x0D, 0x0A]"
    by (simp_all add: frame_of_def build_packet_def bytes_of_def is_byte_def)
  from run se wi f1 f2 show ?thesis by (intro exI [of _ t3] exI [of _ pre]) simp
qed

text \<open>
  \<open>store_ok\<close> holds of a fresh driver, and a notification that is handled keeps it;
  the writes keep it by \<open>store_ok_decays\<close>.
\<close>

lemma init_store_ok: "store_ok (init answers)"
  by (simp add: store_ok_def init_def is_byte_def)

lemma percent_to_level_range: "0 \<le> percent_to_level (uint (b :: 8 word)) \<and> percent_to_level (uint b) \<le> 650"
proof -
  have "0 \<le> uint b" "uint b < 256" using uint_bounded [of b] by simp_all
  then show ?thesis unfolding percent_to_level_def by simp arith
qed

lemma uint_is_byte: "is_byte (uint (b :: 8 word))"
  using uint_bounded [of b] by (simp add: is_byte_def)

lemma disconnect_store_ok: "store_ok s \<Longrightarrow> store_ok (disconnect s)"
  by (simp add: store_ok_def disconnect_def disconnected_callback_def Let_def)

lemma notification_handler_store_ok:
  assumes "store_ok s" and "notification_handler data s = Inr s'"
  shows "store_ok s'"
  using assms percent_to_level_range uint_is_byte disconnect_store_ok [of "s\<lparr>expected_disconnect := True\<rparr>"]
  by (auto simp add: notification_handler_def Let_def get_def store_ok_def
      split: if_splits)

text \<open>
  C6, as amended. If \<open>turn_off\<close> returns and then \<open>turn_on\<close> returns, with no
  notification handled and no disconnected callback run in between (the answers of the
  transport are steady), the cached on-state is exactly what it was before the two
  calls: \<open>is_on\<close> and \<open>light_on\<close> are unchanged, so \<open>turn_off\<close> leaves no stale off
  behind and a device that read as on still reads as on, and \<open>turn_on\<close> does not make a
  device that read as off read as on. The one optimistic change is \<open>color_on\<close>, true
  afterwards when the mode is RGB. Colour, brightnesses, effect and mode are as before.
  Whatever the transport answers, the two calls never set \<open>is_on\<close> or \<open>light_on\<close>.
\<close>

theorem turn_off_turn_on_store:
  assumes "turn_off s = Inr s1" and "turn_on s1 = Inr s2"
  shows "(is_on s2 \<longrightarrow> is_on s) \<and> (light_on s2 \<longrightarrow> light_on s)
         \<and> rgb_color s2 = rgb_color s \<and> brightness s2 = brightness s
         \<and> color_brightness s2 = color_brightness s \<and> effect s2 = effect s
         \<and> mode s2 = mode s
         \<and> (steady_link s \<longrightarrow>
               is_on s2 = is_on s \<and> light_on s2 = light_on s
               \<and> color_on s2 = (color_on s \<or> mode s = RGB))"
proof -
  have "store_decays s s1" using assms(1) by (rule turn_off_decays)
  moreover have "store_decays s1 s2" using assms(2) by (rule turn_on_decays)
  ultimately have "store_decays s s2" by (rule store_decays_trans)
  then have always: "(is_on s2 \<longrightarrow> is_on s) \<and> (light_on s2 \<longrightarrow> light_on s)
         \<and> rgb_color s2 = rgb_color s \<and> brightness s2 = brightness s
         \<and> color_brightness s2 = color_brightness s \<and> effect s2 = effect s
         \<and> mode s2 = mode s"
    by (auto simp add: store_decays_def)
  have exact: "is_on s2 = is_on s \<and> light_on s2 = light_on s
               \<and> color_on s2 = (color_on s \<or> mode s = RGB)" if st: "steady_link s"
  proof -
    from turn_off_same [OF st assms(1)] have a: "store_same s s1" "steady_link s1" by simp_all
    from turn_on_same [OF a(2) assms(2)]
    have b: "store_same (s1\<lparr>color_on := (color_on s1 \<or> mode s1 = RGB)\<rparr>) s2" by simp
    from a(1) b show ?thesis by (simp add: store_same_def)
  qed
  from always exact show ?thesis by blast
qed

text \<open>
  C6, witness: the connected driver \<open>lit\<close>, white light on, with seven accepting
  answers. Both calls return, seven frames are on the link and the device reads as on,
  as before.
\<close>

theorem turn_off_turn_on_store_witness:
  "steady_link (lit\<lparr>link := replicate 7 accepting\<rparr>)
   \<and> is_on (lit\<lparr>link := replicate 7 accepting\<rparr>)
   \<and> (\<exists>s1 s2. turn_off (lit\<lparr>link := replicate 7 accepting\<rparr>) = Inr s1
         \<and> turn_on s1 = Inr s2
         \<and> is_on s2 \<and> light_on s2 \<and> \<not> color_on s2 \<and> mode s2 = WHITE
         \<and> length (wire s2) = 7)"
proof -
  let ?s = "lit\<lparr>link := replicate 7 accepting\<rparr>"
  let ?s1 = "lit\<lparr>link := replicate 3 accepting,
                  sent := [[0x35, 1], [0x35, 2], [0x30, 1], [0x30, 2]],
                  wire := [[0xFE, 0xEF, 0x0A, 9, 0xAB, 0xAA, 4, 0x35, 1, 0x30, 0x55, 0x0D, 0x0A],
                           [0xFE, 0xEF, 0x0A, 9, 0xAB, 0xAA, 4, 0x35, 2, 0x33, 0x55, 0x0D, 0x0A],
                           [0xFE, 0xEF, 0x0A, 9, 0xAB, 0xAA, 4, 0x30, 1, 0x35, 0x55, 0x0D, 0x0A],
                           [0xFE, 0xEF, 0x0A, 9, 0xAB, 0xAA, 4, 0x30, 2, 0x36, 0x55, 0x0D, 0x0A]]\<rparr>"
  let ?s2 = "lit\<lparr>link := [],
                  sent := [[0x35, 1], [0x35, 2], [0x30, 1], [0x30, 2],
                           [0x37, 1], [0x30, 1], [0x30, 2]],
                  wire := [[0xFE, 0xEF, 0x0A, 9, 0xAB, 0xAA, 4, 0x35, 1, 0x30, 0x55, 0x0D, 0x0A],
                           [0xFE, 0xEF, 0x0A, 9, 0xAB, 0xAA, 4, 0x35, 2, 0x33, 0x55, 0x0D, 0x0A],
                           [0xFE, 0xEF, 0x0A, 9, 0xAB, 0xAA, 4, 0x30, 1, 0x35, 0x55, 0x0D, 0x0A],
                           [0xFE, 0xEF, 0x0A, 9, 0xAB, 0xAA, 4, 0x30, 2, 0x36, 0x55, 0x0D, 0x0A],
                           [0xFE, 0xEF, 0x0A, 9, 0xAB, 0xAA, 4, 0x37, 1, 0x32, 0x55, 0x0D, 0x0A],
                           [0xFE, 0xEF, 0x0A, 9, 0xAB, 0xAA, 4, 0x30, 1, 0x35, 0x55, 0x0D, 0x0A],
                           [0xFE, 0xEF, 0x0A, 9, 0xAB, 0xAA, 4, 0x30, 2, 0x36, 0x55, 0x0D, 0x0A]]\<rparr>"
  have h1: "turn_off ?s = Inr ?s1"
    by (simp add: turn_off_def trigger_status_def send_def send_packet_def
        build_packet_def bytes_of_def is_byte_def write_bytes_def next_reply_def
        ensure_connected_def accepting_def lit_def init_def Let_def eval_nat_numeral)
  have h2: "turn_on ?s1 = Inr ?s2"
    by (simp add: turn_on_def trigger_status_def send_def send_packet_def
        build_packet_def bytes_of_def is_byte_def write_bytes_def next_reply_def
        ensure_connected_def accepting_def lit_def init_def Let_def eval_nat_numeral)
  have h3: "steady_link ?s"
    by (simp add: steady_link_def steady_def has_both_def accepting_def
        WRITE_CHARACTERISTIC_UUIDS_def READ_CHARACTERISTIC_UUIDS_def list_all_length)
  have h4: "is_on ?s" "light_on ?s" "\<not> color_on ?s" "mode ?s = WHITE" "mode ?s2 = WHITE"
    "length (wire ?s2) = 7"
    by (simp_all add: lit_def init_def)
  from turn_off_turn_on_store [OF h1 h2] h3 h4
  have "is_on ?s2 \<and> light_on ?s2 \<and> \<not> color_on ?s2" by simp
  with h1 h2 h3 h4 show ?thesis by blast
qed

text \<open>
  C6 as stated fails: on a fresh driver, with a transport that accepts every write,
  \<open>turn_off\<close> followed by \<open>turn_on\<close> leaves \<open>is_on\<close> false. In RGB mode \<open>turn_on\<close>
  sets \<open>color_on\<close>, and \<open>is_on\<close>, which the \<open>is_on\<close> accessor returns, is false all
  the same.
\<close>

theorem turn_off_turn_on_counterexample:
  "(case steps [turn_off, turn_on] (init (replicate 7 accepting)) of
      Inl e \<Rightarrow> None | Inr s \<Rightarrow> Some (is_on s, light_on s, color_on s))
   = Some (False, False, False)
   \<and> (case steps [turn_off, turn_on] ((init (replicate 10 accepting))\<lparr>mode := RGB\<rparr>) of
      Inl e \<Rightarrow> None | Inr s \<Rightarrow> Some (is_on s, light_on s, color_on s))
   = Some (False, False, True)"
  by (simp add: turn_off_def turn_on_def trigger_status_def send_def send_packet_def
      build_packet_def bytes_of_def is_byte_def write_bytes_def next_reply_def
      ensure_connected_def truthy_def accepting_def init_def Let_def
      find_effect_position_def supported_effects_def level_to_percent_def
      WRITE_CHARACTERISTIC_UUIDS_def READ_CHARACTERISTIC_UUIDS_def eval_nat_numeral)

text \<open>
  C9. \<open>find_effect_position\<close> returns an index and never an error: 0 for an absent name,
  the 0-based position for a name of the catalog, 0 for any other name; the result is
  always a valid index of the catalog. So \<open>set_effect\<close>, on a driver whose cached colour
  and brightness fit a frame, returns, and the payloads it hands to \<^verbatim>\<open>_send_packet\<close>
  end with the effect command \<open>[0x34, i]\<close>, \<open>i\<close> that index, and the two status
  requests, whatever the transport answers. When the next nine answers of the transport
  are working, every one of these payloads is written to the link, and the frames on the
  link end with the frame of \<open>[0x34, i]\<close> and those of the two status requests.
\<close>

theorem set_effect_index:
  "find_effect_position None = 0
   \<and> (i < length supported_effects \<longrightarrow>
        find_effect_position (Some (supported_effects ! i)) = int i)
   \<and> (name \<notin> set supported_effects \<longrightarrow> find_effect_position (Some name) = 0)
   \<and> 0 \<le> find_effect_position (Some name)
   \<and> find_effect_position (Some name) < int (length supported_effects)
   \<and> (store_ok s \<longrightarrow>
        (\<exists>s' pre. set_effect name s = Inr s'
            \<and> sent s' = sent s @ pre
                 @ [[0x34, find_effect_position (Some name)], [0x30, 0x01], [0x30, 0x02]]))
   \<and> (store_ok s \<and> list_all working (link s) \<and> 9 \<le> length (link s) \<longrightarrow>
        (\<exists>s' pre fs. set_effect name s = Inr s'
            \<and> sent s' = sent s @ pre
                 @ [[0x34, find_effect_position (Some name)], [0x30, 0x01], [0x30, 0x02]]
            \<and> length fs = length pre
            \<and> wire s' = wire s @ fs
                 @ [[0xFE, 0xEF, 0x0A, 9, 0xAB, 0xAA, 4, 0x34, find_effect_position (Some name),
                     foldl (XOR) 4 [0x34, find_effect_position (Some name)], 0x55, 0x0D, 0x0A],
                    [0xFE, 0xEF, 0x0A, 9, 0xAB, 0xAA, 4, 0x30, 0x01, 0x35, 0x55, 0x0D, 0x0A],
                    [0xFE, 0xEF, 0x0A, 9, 0xAB, 0xAA, 4, 0x30, 0x02, 0x36, 0x55, 0x0D, 0x0A]]))"
proof -
  have a: "find_effect_position None = 0" by (simp add: find_effect_position_def)
  have b: "find_effect_position (Some (supported_effects ! i)) = int i"
    if "i < length supported_effects"
    using index_of_nth [OF distinct_supported_effects that]
    by (simp add: find_effect_position_def)
  have c: "find_effect_position (Some name) = 0" if "name \<notin> set supported_effects"
    using that index_of_None [of supported_effects name]
    by (simp add: find_effect_position_def)
  have d: "\<exists>s' pre. set_effect name s = Inr s'
            \<and> sent s' = sent s @ pre
                 @ [[0x34, find_effect_position (Some name)], [0x30, 0x01], [0x30, 0x02]]"
    if ok: "store_ok s"
  proof -
    let ?s0 = "s\<lparr>mode := RGB, effect := Some name\<rparr>"
    let ?first = "\<lambda>t. if \<not> color_on t then turn_on t else Inr t"
    have ok0: "store_ok ?s0" using ok by (simp add: store_ok_def)
    have "\<exists>t pre. ?first ?s0 = Inr t \<and> sent t = sent s @ pre"
    proof (cases "color_on s")
      case True
      then show ?thesis by simp
    next
      case False
      with turn_on_returns [OF ok0] show ?thesis by auto
    qed
    then obtain t1 pre where t1: "?first ?s0 = Inr t1" "sent t1 = sent s @ pre" by blast
    from send_step [OF effect_payload_bytes, of "Some name" t1]
    obtain t2 where t2: "send [0x34, find_effect_position (Some name)] t1 = Inr t2"
      "sent t2 = sent t1 @ [[0x34, find_effect_position (Some name)]]" by auto
    from trigger_status_returns [of t2]
    obtain t3 where t3: "trigger_status t2 = Inr t3"
      "sent t3 = sent t2 @ [[0x30, 0x01], [0x30, 0x02]]" by auto
    have "set_effect name s = Inr t3"
      using t1(1) t2(1) t3(1) by (simp add: set_effect_def)
    moreover have "sent t3 = sent s @ pre
                 @ [[0x34, find_effect_position (Some name)], [0x30, 0x01], [0x30, 0x02]]"
      using t1(2) t2(2) t3(2) by simp
    ultimately show ?thesis by blast
  qed
  have e: "\<exists>s' pre fs. set_effect name s = Inr s'
            \<and> sent s' = sent s @ pre
                 @ [[0x34, find_effect_position (Some name)], [0x30, 0x01], [0x30, 0x02]]
            \<and> length fs = length pre
            \<and> wire s' = wire s @ fs
                 @ [[0xFE, 0xEF, 0x0A, 9, 0xAB, 0xAA, 4, 0x34, find_effect_position (Some name),
                     foldl (XOR) 4 [0x34, find_effect_position (Some name)], 0x55, 0x0D, 0x0A],
                    [0xFE, 0xEF, 0x0A, 9, 0xAB, 0xAA, 4, 0x30, 0x01, 0x35, 0x55, 0x0D, 0x0A],
                    [0xFE, 0xEF, 0x0A, 9, 0xAB, 0xAA, 4, 0x30, 0x02, 0x36, 0x55, 0x0D, 0x0A]]"
    if "store_ok s \<and> list_all working (link s) \<and> 9 \<le> length (link s)"
  proof -
    from that have "ready 9 s" by (simp add: ready_def)
    from set_effect_delivers [OF this, of name]
    obtain s' pre where "set_effect name s = Inr s'"
      and "sent s' = sent s @ pre
                 @ [[0x34, find_effect_position (Some name)], [0x30, 0x01], [0x30, 0x02]]"
      and "wire s' = wire s @ map frame_of pre
                 @ [[0xFE, 0xEF, 0x0A, 9, 0xAB, 0xAA, 4, 0x34, find_effect_position (Some name),
                     foldl (XOR) 4 [0x34, find_effect_position (Some name)], 0x55, 0x0D, 0x0A],
                    [0xFE, 0xEF, 0x0A, 9, 0xAB, 0xAA, 4, 0x30, 0x01, 0x35, 0x55, 0x0D, 0x0A],
                    [0xFE, 0xEF, 0x0A, 9, 0xAB, 0xAA, 4, 0x30, 0x02, 0x36, 0x55, 0x0D, 0x0A]]"
      by blast
    then show ?thesis
      by (intro exI [of _ s'] exI [of _ pre] exI [of _ "map frame_of pre"]) simp
  qed
  from a b c d e find_effect_position_range [of "Some name"] show ?thesis by blast
qed

text \<open>
  C9, witness: \<open>Wave\<close> is entry 6 of the catalog, \<open>Disco\<close> is not in it and resolves
  to 0, and \<open>set_effect\<close> for it on the connected driver \<open>lit\<close> with nine accepting
  answers puts the frame of \<open>[0x34, 0]\<close> and the two status requests on the link.
\<close>

theorem set_effect_index_witness:
  "6 < length supported_effects
   \<and> find_effect_position (Some (supported_effects ! 6)) = 6
   \<and> ''Disco'' \<notin> set supported_effects
   \<and> find_effect_position (Some ''Disco'') = 0
   \<and> (store_ok (lit\<lparr>link := replicate 9 accepting\<rparr>)
        \<and> list_all working (link (lit\<lparr>link := replicate 9 accepting\<rparr>))
        \<and> 9 \<le> length (link (lit\<lparr>link := replicate 9 accepting\<rparr>)))
   \<and> (\<exists>s' pre fs. set_effect ''Disco'' (lit\<lparr>link := replicate 9 accepting\<rparr>) = Inr s'
         \<and> sent s' = pre @ [[0x34, 0], [0x30, 0x01], [0x30, 0x02]]
         \<and> length fs = length pre
         \<and> wire s' = fs
              @ [[0xFE, 0xEF, 0x0A, 9, 0xAB, 0xAA, 4, 0x34, 0, 0x30, 0x55, 0x0D, 0x0A],
                 [0xFE, 0xEF, 0x0A, 9, 0xAB, 0xAA, 4, 0x30, 0x01, 0x35, 0x55, 0x0D, 0x0A],
                 [0xFE, 0xEF, 0x0A, 9, 0xAB, 0xAA, 4, 0x30, 0x02, 0x36, 0x55, 0x0D, 0x0A]])"
proof -
  let ?s = "lit\<lparr>link := replicate 9 accepting\<rparr>"
  have h1: "6 < length supported_effects" by (simp add: supported_effects_def)
  have h2: "''Disco'' \<notin> set supported_effects" by (simp add: supported_effects_def)
  have h3: "store_ok ?s \<and> list_all working (link ?s) \<and> 9 \<le> length (link ?s)"
    by (simp add: store_ok_def lit_def init_def is_byte_def working_def has_both_def
        accepting_def WRITE_CHARACTERISTIC_UUIDS_def READ_CHARACTERISTIC_UUIDS_def
        list_all_length)
  have h4: "sent ?s = []" "wire ?s = []" by (simp_all add: lit_def init_def)
  note t = set_effect_index [of 6 "''Disco''" ?s]
  from t h1 have c1: "find_effect_position (Some (supported_effects ! 6)) = 6" by simp
  from t h2 have c2: "find_effect_position (Some ''Disco'') = 0" by blast
  from t h3 have "\<exists>s' pre fs. set_effect ''Disco'' ?s = Inr s'
            \<and> sent s' = sent ?s @ pre
                 @ [[0x34, find_effect_position (Some ''Disco'')], [0x30, 0x01], [0x30, 0x02]]
            \<and> length fs = length pre
            \<and> wire s' = wire ?s @ fs
                 @ [[0xFE, 0xEF, 0x0A, 9, 0xAB, 0xAA, 4, 0x34, find_effect_position (Some ''Disco''),
                     foldl (XOR) 4 [0x34, find_effect_position (Some ''Disco'')], 0x55, 0x0D, 0x0A],
                    [0xFE, 0xEF, 0x0A, 9, 0xAB, 0xAA, 4, 0x30, 0x01, 0x35, 0x55, 0x0D, 0x0A],
                    [0xFE, 0xEF, 0x0A, 9, 0xAB, 0xAA, 4, 0x30, 0x02, 0x36, 0x55, 0x0D, 0x0A]]"
    by blast
  then have c3: "\<exists>s' pre fs. set_effect ''Disco'' ?s = Inr s'
         \<and> sent s' = pre @ [[0x34, 0], [0x30, 0x01], [0x30, 0x02]]
         \<and> length fs = length pre
         \<and> wire s' = fs
              @ [[0xFE, 0xEF, 0x0A, 9, 0xAB, 0xAA, 4, 0x34, 0, 0x30, 0x55, 0x0D, 0x0A],
                 [0xFE, 0xEF, 0x0A, 9, 0xAB, 0xAA, 4, 0x30, 0x01, 0x35, 0x55, 0x0D, 0x0A],
                 [0xFE, 0xEF, 0x0A, 9, 0xAB, 0xAA, 4, 0x30, 0x02, 0x36, 0x55, 0x0D, 0x0A]]"
    unfolding c2 h4 by simp
  from h1 h2 h3 c1 c2 c3 show ?thesis by blast
qed

text \<open>
  On a connected driver whose transport accepts the writes, the frames on the link are
  the effect command for entry 6 and the two status requests.
\<close>

lemma set_effect_wire_example:
  "(case set_effect ''Wave'' (lit\<lparr>color_on := True, link := [accepting, accepting, accepting]\<rparr>) of
      Inl e \<Rightarrow> None | Inr s \<Rightarrow> Some (wire s))
   = Some [[0xFE, 0xEF, 0x0A, 9, 0xAB, 0xAA, 4, 0x34, 6, 0x36, 0x55, 0x0D, 0x0A],
           [0xFE, 0xEF, 0x0A, 9, 0xAB, 0xAA, 4, 0x30, 1, 0x35, 0x55, 0x0D, 0x0A],
           [0xFE, 0xEF, 0x0A, 9, 0xAB, 0xAA, 4, 0x30, 2, 0x36, 0x55, 0x0D, 0x0A]]"
  by (simp add: set_effect_def trigger_status_def send_def send_packet_def
      build_packet_def bytes_of_def is_byte_def write_bytes_def next_reply_def
      ensure_connected_def accepting_def lit_def init_def Let_def
      find_effect_position_def supported_effects_def)

end
